theory Spec2Isabelle
  imports Main "HOL-Library.Word" "HOL-Library.AList"
begin

section \<open>Domain errors\<close>

text \<open>
  The sentinel errors of \<^verbatim>\<open>internal/domain/errors.go\<close>. The constructor \<open>Wrapped\<close>
  stands for \<^verbatim>\<open>fmt.Errorf("%w: ...", sentinel, ...)\<close>: it keeps the wrapped error and
  the text that follows the colon. \<open>errors_Is\<close> is Go's \<^verbatim>\<open>errors.Is\<close>: it walks the
  chain of wrapped errors.
\<close>

datatype error =
    ErrTransactionNotFound
  | ErrPurchaseNotApproved
  | ErrExceedsOriginalAmount
  | ErrNegativeAmount
  | ErrAmountOutOfRange
  | ErrCurrencyMismatch
  | ErrInvalidTransactionType
  | ErrDuplicateIdempotencyKey
  | ErrOriginalTransactionRequired
  | ErrDuplicateTransactionID
  | ErrInvalidInput
  | Wrapped error string

primrec errors_Is :: "error \<Rightarrow> error \<Rightarrow> bool" where
  "errors_Is ErrTransactionNotFound target = (target = ErrTransactionNotFound)"
| "errors_Is ErrPurchaseNotApproved target = (target = ErrPurchaseNotApproved)"
| "errors_Is ErrExceedsOriginalAmount target = (target = ErrExceedsOriginalAmount)"
| "errors_Is ErrNegativeAmount target = (target = ErrNegativeAmount)"
| "errors_Is ErrAmountOutOfRange target = (target = ErrAmountOutOfRange)"
| "errors_Is ErrCurrencyMismatch target = (target = ErrCurrencyMismatch)"
| "errors_Is ErrInvalidTransactionType target = (target = ErrInvalidTransactionType)"
| "errors_Is ErrDuplicateIdempotencyKey target = (target = ErrDuplicateIdempotencyKey)"
| "errors_Is ErrOriginalTransactionRequired target = (target = ErrOriginalTransactionRequired)"
| "errors_Is ErrDuplicateTransactionID target = (target = ErrDuplicateTransactionID)"
| "errors_Is ErrInvalidInput target = (target = ErrInvalidInput)"
| "errors_Is (Wrapped e msg) target = (target = Wrapped e msg \<or> errors_Is e target)"

section \<open>Money\<close>

text \<open>
  Go's \<^verbatim>\<open>int64\<close> is a 64-bit word: \<open>+\<close> wraps around, and the comparisons of the
  source are the signed ones (\<open><s\<close>, \<open>\<le>s\<close>); \<open>sint\<close> reads the two's-complement value.
\<close>

type_synonym int64 = "64 word"

record Money =
  Amount :: int64
  Currency :: string

definition NewMoney :: "int64 \<Rightarrow> string \<Rightarrow> error + Money" where
  "NewMoney amount currency =
     (if amount <s 0 then Inl ErrNegativeAmount
      else Inr \<lparr>Amount = amount, Currency = currency\<rparr>)"

definition Money_Add :: "Money \<Rightarrow> Money \<Rightarrow> error + Money" where
  "Money_Add m other =
     (if Currency m \<noteq> Currency other
      then Inl (Wrapped ErrCurrencyMismatch (Currency m @ '' vs '' @ Currency other))
      else Inr \<lparr>Amount = Amount m + Amount other, Currency = Currency m\<rparr>)"

definition Money_GreaterThan :: "Money \<Rightarrow> Money \<Rightarrow> error + bool" where
  "Money_GreaterThan m other =
     (if Currency m \<noteq> Currency other
      then Inl (Wrapped ErrCurrencyMismatch (Currency m @ '' vs '' @ Currency other))
      else Inr (Amount other <s Amount m))"

section \<open>Purchases and adjustments\<close>

definition MinPurchaseAmount :: int64 where
  "MinPurchaseAmount = 100"

definition MaxPurchaseAmount :: int64 where
  "MaxPurchaseAmount = 500000"

text \<open>\<^verbatim>\<open>TransactionType\<close> and \<^verbatim>\<open>TransactionStatus\<close> are string types in the source.\<close>

type_synonym TransactionType = string
type_synonym TransactionStatus = string

definition TypePurchase :: TransactionType where
  "TypePurchase = ''PURCHASE''"

definition TypeReversalPurchase :: TransactionType where
  "TypeReversalPurchase = ''REVERSAL_PURCHASE''"

definition TypeRefund :: TransactionType where
  "TypeRefund = ''REFUND''"

definition StatusApproved :: TransactionStatus where
  "StatusApproved = ''APPROVED''"

definition StatusRejected :: TransactionStatus where
  "StatusRejected = ''REJECTED''"

record AmountBreakdown =
  Local :: Money
  Transaction :: Money
  Settlement :: Money
  Original :: Money

record Merchant =
  mer_ID :: string
  mer_MCC :: string
  mer_Address :: string
  mer_Name :: string
  mer_City :: string
  mer_State :: string

text \<open>\<^verbatim>\<open>time.Time\<close> is carried through unchanged; an integer timestamp stands for it.\<close>

record Event =
  ev_ID :: string
  ev_CreatedAt :: int
  ev_IdempotencyKey :: string

record Transaction =
  tx_ID :: string
  tx_Type :: TransactionType
  tx_Status :: TransactionStatus
  tx_Amount :: AmountBreakdown
  tx_Merchant :: Merchant
  tx_Event :: Event
  tx_OriginalTransactionID :: string
  tx_UserID :: string
  tx_CardID :: string
  tx_Country :: string
  tx_Currency :: string
  tx_PointOfSale :: string

record Adjustment =
  adj_ID :: string
  adj_Type :: TransactionType
  adj_Status :: TransactionStatus
  adj_Amount :: AmountBreakdown
  adj_Merchant :: Merchant
  adj_Event :: Event
  adj_OriginalTransactionID :: string
  adj_UserID :: string
  adj_CardID :: string
  adj_Country :: string
  adj_Currency :: string
  adj_PointOfSale :: string

definition NewPurchase ::
  "string \<Rightarrow> TransactionStatus \<Rightarrow> AmountBreakdown \<Rightarrow> Merchant \<Rightarrow> Event \<Rightarrow>
   string \<Rightarrow> string \<Rightarrow> string \<Rightarrow> string \<Rightarrow> string \<Rightarrow> error + Transaction" where
  "NewPurchase id' status amount merchant event userID cardID country currency pointOfSale =
     (if id' = [] then Inl (Wrapped ErrInvalidInput ''transaction id is required'')
      else if ev_ID event = [] \<or> ev_IdempotencyKey event = []
        then Inl (Wrapped ErrInvalidInput ''event id and idempotency key are required'')
      else if Amount (Local amount) <s MinPurchaseAmount \<or> MaxPurchaseAmount <s Amount (Local amount)
        then Inl ErrAmountOutOfRange
      else Inr \<lparr>tx_ID = id', tx_Type = TypePurchase, tx_Status = status, tx_Amount = amount,
                tx_Merchant = merchant, tx_Event = event, tx_OriginalTransactionID = [],
                tx_UserID = userID, tx_CardID = cardID, tx_Country = country,
                tx_Currency = currency, tx_PointOfSale = pointOfSale\<rparr>)"

definition IsApprovedPurchase :: "Transaction \<Rightarrow> bool" where
  "IsApprovedPurchase t = (tx_Type t = TypePurchase \<and> tx_Status t = StatusApproved)"

definition CanReceiveAdjustment :: "Transaction \<Rightarrow> bool" where
  "CanReceiveAdjustment t = IsApprovedPurchase t"

definition NewAdjustment ::
  "string \<Rightarrow> TransactionType \<Rightarrow> TransactionStatus \<Rightarrow> AmountBreakdown \<Rightarrow> Merchant \<Rightarrow> Event \<Rightarrow>
   string \<Rightarrow> string \<Rightarrow> string \<Rightarrow> string \<Rightarrow> string \<Rightarrow> string \<Rightarrow> error + Adjustment" where
  "NewAdjustment id' txType status amount merchant event originalTransactionID
                 userID cardID country currency pointOfSale =
     (if txType \<noteq> TypeReversalPurchase \<and> txType \<noteq> TypeRefund
        then Inl (Wrapped ErrInvalidTransactionType txType)
      else if originalTransactionID = [] then Inl ErrOriginalTransactionRequired
      else if id' = [] then Inl (Wrapped ErrInvalidInput ''adjustment id is required'')
      else if ev_ID event = [] \<or> ev_IdempotencyKey event = []
        then Inl (Wrapped ErrInvalidInput ''event id and idempotency key are required'')
      else Inr \<lparr>adj_ID = id', adj_Type = txType, adj_Status = status, adj_Amount = amount,
                adj_Merchant = merchant, adj_Event = event,
                adj_OriginalTransactionID = originalTransactionID,
                adj_UserID = userID, adj_CardID = cardID, adj_Country = country,
                adj_Currency = currency, adj_PointOfSale = pointOfSale\<rparr>)"

text \<open>
  \<^verbatim>\<open>ValidateAgainstPurchase\<close> returns an \<^verbatim>\<open>error\<close>; \<open>None\<close> is Go's \<^verbatim>\<open>nil\<close>.
\<close>

definition ValidateAgainstPurchase :: "Adjustment \<Rightarrow> Transaction \<Rightarrow> Money \<Rightarrow> error option" where
  "ValidateAgainstPurchase a original existingTotal =
     (if \<not> CanReceiveAdjustment original then Some ErrPurchaseNotApproved
      else if adj_Status a \<noteq> StatusApproved then None
      else case Money_Add existingTotal (Local (adj_Amount a)) of
             Inl err \<Rightarrow> Some err
           | Inr newTotal \<Rightarrow>
               (case Money_GreaterThan newTotal (Local (tx_Amount original)) of
                  Inl err \<Rightarrow> Some err
                | Inr exceeds \<Rightarrow> if exceeds then Some ErrExceedsOriginalAmount else None))"

section \<open>The in-memory repository\<close>

text \<open>
  The three Go maps of \<^verbatim>\<open>Repository\<close> are association lists: \<open>map_of\<close> is the lookup
  \<^verbatim>\<open>v, ok := m[k]\<close> and \<open>AList.update\<close> is the assignment \<^verbatim>\<open>m[k] = v\<close> (it replaces the
  entry of a key that is present and adds one otherwise), so the lists that the methods build
  from the empty repository hold one entry for each key, as a Go map does. The mutex is held
  for the whole body of every method, so each method is one atomic step on the state: it
  takes the repository and returns the new one with its result.
\<close>

record Repository =
  transactions :: "(string \<times> Transaction) list"
  adjustments :: "(string \<times> Adjustment list) list"
  idempotencyKeys :: "(string \<times> string) list"

definition NewRepository :: Repository where
  "NewRepository = \<lparr>transactions = [], adjustments = [], idempotencyKeys = []\<rparr>"

definition SaveTransaction :: "Repository \<Rightarrow> Transaction \<Rightarrow> Repository \<times> error option" where
  "SaveTransaction r tx =
     (if map_of (idempotencyKeys r) (ev_IdempotencyKey (tx_Event tx)) \<noteq> None
        then (r, Some ErrDuplicateIdempotencyKey)
      else if map_of (transactions r) (tx_ID tx) \<noteq> None
        then (r, Some ErrDuplicateTransactionID)
      else (r\<lparr>idempotencyKeys :=
                 AList.update (ev_IdempotencyKey (tx_Event tx)) (tx_ID tx) (idempotencyKeys r),
               transactions := AList.update (tx_ID tx) tx (transactions r)\<rparr>, None))"

text \<open>Reading a key that is absent from a Go map of slices gives the nil slice.\<close>

definition adjustmentsOf :: "Repository \<Rightarrow> string \<Rightarrow> Adjustment list" where
  "adjustmentsOf r originalTxID =
     (case map_of (adjustments r) originalTxID of None \<Rightarrow> [] | Some adjs \<Rightarrow> adjs)"

definition SaveAdjustment :: "Repository \<Rightarrow> Adjustment \<Rightarrow> Repository \<times> error option" where
  "SaveAdjustment r adj =
     (if map_of (idempotencyKeys r) (ev_IdempotencyKey (adj_Event adj)) \<noteq> None
        then (r, Some ErrDuplicateIdempotencyKey)
      else (r\<lparr>idempotencyKeys :=
                 AList.update (ev_IdempotencyKey (adj_Event adj)) (adj_ID adj) (idempotencyKeys r),
               adjustments :=
                 AList.update (adj_OriginalTransactionID adj)
                   (adjustmentsOf r (adj_OriginalTransactionID adj) @ [adj]) (adjustments r)\<rparr>,
            None))"

definition GetTransactionByID :: "Repository \<Rightarrow> string \<Rightarrow> error + Transaction" where
  "GetTransactionByID r id' =
     (case map_of (transactions r) id' of
        None \<Rightarrow> Inl ErrTransactionNotFound
      | Some tx \<Rightarrow> Inr tx)"

definition GetAdjustmentsByTransactionID :: "Repository \<Rightarrow> string \<Rightarrow> error + Adjustment list" where
  "GetAdjustmentsByTransactionID r originalTxID = Inr (adjustmentsOf r originalTxID)"

text \<open>\<^verbatim>\<open>GetByIdempotencyKey\<close> returns \<^verbatim>\<open>(id, ok)\<close>: \<open>Some id\<close> when \<^verbatim>\<open>ok\<close>, \<open>None\<close> otherwise.\<close>

definition GetByIdempotencyKey :: "Repository \<Rightarrow> string \<Rightarrow> string option" where
  "GetByIdempotencyKey r key = map_of (idempotencyKeys r) key"

text \<open>
  \<^verbatim>\<open>ListTransactions\<close> collects the values of the map, in an order that Go leaves open;
  the model lists them in the order of the association list. Its error is always \<^verbatim>\<open>nil\<close>.
\<close>

definition ListTransactions :: "Repository \<Rightarrow> Transaction list" where
  "ListTransactions r = map snd (transactions r)"

section \<open>The application service\<close>

record ProcessTransactionCommand =
  cmd_TransactionID :: string
  cmd_TransactionType :: string
  cmd_TransactionStatus :: string
  cmd_OriginalTransactionID :: string
  cmd_LocalAmount :: int64
  cmd_LocalCurrency :: string
  cmd_TxAmount :: int64
  cmd_TxCurrency :: string
  cmd_SettlementAmount :: int64
  cmd_SettlementCurrency :: string
  cmd_OriginalAmount :: int64
  cmd_OriginalCurrency :: string
  cmd_MerchantID :: string
  cmd_MerchantMCC :: string
  cmd_MerchantAddress :: string
  cmd_MerchantName :: string
  cmd_MerchantCity :: string
  cmd_MerchantState :: string
  cmd_EventID :: string
  cmd_EventCreatedAt :: int
  cmd_IdempotencyKey :: string
  cmd_UserID :: string
  cmd_CardID :: string
  cmd_Country :: string
  cmd_Currency :: string
  cmd_PointOfSale :: string

record ProcessTransactionResult =
  res_TransactionID :: string
  res_Idempotent :: bool

text \<open>The zero value \<^verbatim>\<open>ports.ProcessTransactionResult{}\<close>.\<close>

definition noResult :: ProcessTransactionResult where
  "noResult = \<lparr>res_TransactionID = [], res_Idempotent = False\<rparr>"

definition merchantOf :: "ProcessTransactionCommand \<Rightarrow> Merchant" where
  "merchantOf cmd =
     \<lparr>mer_ID = cmd_MerchantID cmd, mer_MCC = cmd_MerchantMCC cmd,
      mer_Address = cmd_MerchantAddress cmd, mer_Name = cmd_MerchantName cmd,
      mer_City = cmd_MerchantCity cmd, mer_State = cmd_MerchantState cmd\<rparr>"

definition eventOf :: "ProcessTransactionCommand \<Rightarrow> Event" where
  "eventOf cmd =
     \<lparr>ev_ID = cmd_EventID cmd, ev_CreatedAt = cmd_EventCreatedAt cmd,
      ev_IdempotencyKey = cmd_IdempotencyKey cmd\<rparr>"

text \<open>
  The four calls of \<^verbatim>\<open>NewMoney\<close> of both paths, in the order of the source; the first
  that fails gives the error.
\<close>

definition buildAmount :: "ProcessTransactionCommand \<Rightarrow> error + AmountBreakdown" where
  "buildAmount cmd =
     (case NewMoney (cmd_LocalAmount cmd) (cmd_LocalCurrency cmd) of
        Inl err \<Rightarrow> Inl err
      | Inr localMoney \<Rightarrow>
     (case NewMoney (cmd_TxAmount cmd) (cmd_TxCurrency cmd) of
        Inl err \<Rightarrow> Inl err
      | Inr txMoney \<Rightarrow>
     (case NewMoney (cmd_SettlementAmount cmd) (cmd_SettlementCurrency cmd) of
        Inl err \<Rightarrow> Inl err
      | Inr settlementMoney \<Rightarrow>
     (case NewMoney (cmd_OriginalAmount cmd) (cmd_OriginalCurrency cmd) of
        Inl err \<Rightarrow> Inl err
      | Inr originalMoney \<Rightarrow>
          Inr \<lparr>Local = localMoney, Transaction = txMoney,
               Settlement = settlementMoney, Original = originalMoney\<rparr>))))"

text \<open>
  A service method returns the repository it leaves behind, the result and the error
  (\<open>None\<close> for \<^verbatim>\<open>nil\<close>): on a duplicate idempotency key the source returns both a result
  and an error.
\<close>

type_synonym outcome = "Repository \<times> ProcessTransactionResult \<times> error option"

definition processPurchase :: "Repository \<Rightarrow> ProcessTransactionCommand \<Rightarrow> outcome" where
  "processPurchase r cmd =
     (if GetByIdempotencyKey r (cmd_IdempotencyKey cmd) \<noteq> None
        then (r, \<lparr>res_TransactionID = cmd_TransactionID cmd, res_Idempotent = True\<rparr>,
              Some ErrDuplicateIdempotencyKey)
      else case buildAmount cmd of
        Inl err \<Rightarrow> (r, noResult, Some err)
      | Inr amount \<Rightarrow>
     (case NewPurchase (cmd_TransactionID cmd) (cmd_TransactionStatus cmd) amount
             (merchantOf cmd) (eventOf cmd) (cmd_UserID cmd) (cmd_CardID cmd)
             (cmd_Country cmd) (cmd_Currency cmd) (cmd_PointOfSale cmd) of
        Inl err \<Rightarrow> (r, noResult, Some err)
      | Inr tx \<Rightarrow>
     (case SaveTransaction r tx of
        (r', Some err) \<Rightarrow>
          if errors_Is err ErrDuplicateIdempotencyKey
          then (r', \<lparr>res_TransactionID = cmd_TransactionID cmd, res_Idempotent = True\<rparr>, Some err)
          else (r', noResult, Some err)
      | (r', None) \<Rightarrow> (r', \<lparr>res_TransactionID = tx_ID tx, res_Idempotent = False\<rparr>, None))))"

text \<open>The loop of \<^verbatim>\<open>sumExistingAdjustments\<close>, with the running total as accumulator.\<close>

fun sumLoop :: "Money \<Rightarrow> Adjustment list \<Rightarrow> error + Money" where
  "sumLoop tot [] = Inr tot"
| "sumLoop tot (adj # adjs) =
     (if adj_Status adj \<noteq> StatusApproved then sumLoop tot adjs
      else case Money_Add tot (Local (adj_Amount adj)) of
             Inl err \<Rightarrow> Inl err
           | Inr tot' \<Rightarrow> sumLoop tot' adjs)"

definition sumExistingAdjustments :: "Adjustment list \<Rightarrow> string \<Rightarrow> error + Money" where
  "sumExistingAdjustments adjs currency =
     (case NewMoney 0 currency of
        Inl err \<Rightarrow> Inl err
      | Inr tot \<Rightarrow> sumLoop tot adjs)"

definition processAdjustment :: "Repository \<Rightarrow> ProcessTransactionCommand \<Rightarrow> outcome" where
  "processAdjustment r cmd =
     (if cmd_OriginalTransactionID cmd = [] then (r, noResult, Some ErrOriginalTransactionRequired)
      else if GetByIdempotencyKey r (cmd_IdempotencyKey cmd) \<noteq> None
        then (r, \<lparr>res_TransactionID = cmd_TransactionID cmd, res_Idempotent = True\<rparr>,
              Some ErrDuplicateIdempotencyKey)
      else case GetTransactionByID r (cmd_OriginalTransactionID cmd) of
        Inl err \<Rightarrow> (r, noResult, Some err)
      | Inr original \<Rightarrow>
     (case buildAmount cmd of
        Inl err \<Rightarrow> (r, noResult, Some err)
      | Inr amount \<Rightarrow>
     (case NewAdjustment (cmd_TransactionID cmd) (cmd_TransactionType cmd)
             (cmd_TransactionStatus cmd) amount (merchantOf cmd) (eventOf cmd)
             (cmd_OriginalTransactionID cmd) (cmd_UserID cmd) (cmd_CardID cmd)
             (cmd_Country cmd) (cmd_Currency cmd) (cmd_PointOfSale cmd) of
        Inl err \<Rightarrow> (r, noResult, Some err)
      | Inr adj \<Rightarrow>
     (case GetAdjustmentsByTransactionID r (cmd_OriginalTransactionID cmd) of
        Inl err \<Rightarrow> (r, noResult, Some err)
      | Inr existingAdjs \<Rightarrow>
     (case sumExistingAdjustments existingAdjs (cmd_LocalCurrency cmd) of
        Inl err \<Rightarrow> (r, noResult, Some err)
      | Inr existingTotal \<Rightarrow>
     (case ValidateAgainstPurchase adj original existingTotal of
        Some err \<Rightarrow> (r, noResult, Some err)
      | None \<Rightarrow>
     (case SaveAdjustment r adj of
        (r', Some err) \<Rightarrow>
          if errors_Is err ErrDuplicateIdempotencyKey
          then (r', \<lparr>res_TransactionID = cmd_TransactionID cmd, res_Idempotent = True\<rparr>, Some err)
          else (r', noResult, Some err)
      | (r', None) \<Rightarrow>
          (r', \<lparr>res_TransactionID = adj_ID adj, res_Idempotent = False\<rparr>, None))))))))"

definition ProcessTransaction :: "Repository \<Rightarrow> ProcessTransactionCommand \<Rightarrow> outcome" where
  "ProcessTransaction r cmd =
     (if cmd_TransactionType cmd = TypePurchase then processPurchase r cmd
      else if cmd_TransactionType cmd = TypeReversalPurchase \<or> cmd_TransactionType cmd = TypeRefund
        then processAdjustment r cmd
      else (r, noResult, Some (Wrapped ErrInvalidTransactionType (cmd_TransactionType cmd))))"

section \<open>Derived notions and example data\<close>

text \<open>
  \<open>failsWith res target\<close> says that a call returned an error for which
  \<^verbatim>\<open>errors.Is(err, target)\<close> holds, the way the tests of the repository check errors.
\<close>

definition failsWith :: "error + 'a \<Rightarrow> error \<Rightarrow> bool" where
  "failsWith res target = (case res of Inl err \<Rightarrow> errors_Is err target | Inr _ \<Rightarrow> False)"

text \<open>
  Example data in the style of the helpers of the test files: an amount breakdown with the
  same money in its four views, a merchant, an event, a purchase and a refund.
\<close>

definition makeAmountBreakdown :: "int64 \<Rightarrow> string \<Rightarrow> AmountBreakdown" where
  "makeAmountBreakdown amount currency =
     \<lparr>Local = \<lparr>Amount = amount, Currency = currency\<rparr>,
      Transaction = \<lparr>Amount = amount, Currency = currency\<rparr>,
      Settlement = \<lparr>Amount = amount, Currency = currency\<rparr>,
      Original = \<lparr>Amount = amount, Currency = currency\<rparr>\<rparr>"

definition makeMerchant :: Merchant where
  "makeMerchant = \<lparr>mer_ID = ''m1'', mer_MCC = ''5411'', mer_Address = [], mer_Name = ''Test Store'',
                   mer_City = ''SP'', mer_State = ''SP''\<rparr>"

definition makeEvent :: "string \<Rightarrow> Event" where
  "makeEvent idempotencyKey = \<lparr>ev_ID = ''evt1'', ev_CreatedAt = 0, ev_IdempotencyKey = idempotencyKey\<rparr>"

definition makePurchase :: "string \<Rightarrow> TransactionStatus \<Rightarrow> string \<Rightarrow> int64 \<Rightarrow> string \<Rightarrow> Transaction" where
  "makePurchase id' status idemKey amount currency =
     \<lparr>tx_ID = id', tx_Type = TypePurchase, tx_Status = status,
      tx_Amount = makeAmountBreakdown amount currency, tx_Merchant = makeMerchant,
      tx_Event = makeEvent idemKey, tx_OriginalTransactionID = [], tx_UserID = ''u1'',
      tx_CardID = ''card1'', tx_Country = ''BR'', tx_Currency = currency, tx_PointOfSale = ''POS''\<rparr>"

definition makeAdjustment :: "string \<Rightarrow> TransactionStatus \<Rightarrow> string \<Rightarrow> string \<Rightarrow> int64 \<Rightarrow> string \<Rightarrow> Adjustment" where
  "makeAdjustment id' status originalID idemKey amount currency =
     \<lparr>adj_ID = id', adj_Type = TypeRefund, adj_Status = status,
      adj_Amount = makeAmountBreakdown amount currency, adj_Merchant = makeMerchant,
      adj_Event = makeEvent idemKey, adj_OriginalTransactionID = originalID, adj_UserID = ''u1'',
      adj_CardID = ''card1'', adj_Country = ''BR'', adj_Currency = currency, adj_PointOfSale = ''POS''\<rparr>"

text \<open>
  The commands of \<^verbatim>\<open>service_test.go\<close> (\<^verbatim>\<open>makePurchaseCmd\<close>, \<^verbatim>\<open>makeAdjustCmd\<close>); the
  timestamp \<^verbatim>\<open>time.Now()\<close> is 0 here.
\<close>

definition makePurchaseCmd :: "string \<Rightarrow> string \<Rightarrow> string \<Rightarrow> int64 \<Rightarrow> ProcessTransactionCommand" where
  "makePurchaseCmd id' status idemKey amount =
     \<lparr>cmd_TransactionID = id', cmd_TransactionType = ''PURCHASE'', cmd_TransactionStatus = status,
      cmd_OriginalTransactionID = [],
      cmd_LocalAmount = amount, cmd_LocalCurrency = ''BRL'',
      cmd_TxAmount = amount, cmd_TxCurrency = ''BRL'',
      cmd_SettlementAmount = amount, cmd_SettlementCurrency = ''BRL'',
      cmd_OriginalAmount = amount, cmd_OriginalCurrency = ''BRL'',
      cmd_MerchantID = ''m1'', cmd_MerchantMCC = [], cmd_MerchantAddress = [],
      cmd_MerchantName = ''Store'', cmd_MerchantCity = [], cmd_MerchantState = [],
      cmd_EventID = ''evt-'' @ id', cmd_EventCreatedAt = 0, cmd_IdempotencyKey = idemKey,
      cmd_UserID = ''u1'', cmd_CardID = ''card1'', cmd_Country = ''BR'', cmd_Currency = ''BRL'',
      cmd_PointOfSale = ''POS''\<rparr>"

definition makeAdjustCmd ::
  "string \<Rightarrow> string \<Rightarrow> string \<Rightarrow> string \<Rightarrow> string \<Rightarrow> int64 \<Rightarrow> ProcessTransactionCommand" where
  "makeAdjustCmd id' txType status originalID idemKey amount =
     \<lparr>cmd_TransactionID = id', cmd_TransactionType = txType, cmd_TransactionStatus = status,
      cmd_OriginalTransactionID = originalID,
      cmd_LocalAmount = amount, cmd_LocalCurrency = ''BRL'',
      cmd_TxAmount = amount, cmd_TxCurrency = ''BRL'',
      cmd_SettlementAmount = amount, cmd_SettlementCurrency = ''BRL'',
      cmd_OriginalAmount = amount, cmd_OriginalCurrency = ''BRL'',
      cmd_MerchantID = ''m1'', cmd_MerchantMCC = [], cmd_MerchantAddress = [],
      cmd_MerchantName = ''Store'', cmd_MerchantCity = [], cmd_MerchantState = [],
      cmd_EventID = ''evt-'' @ id', cmd_EventCreatedAt = 0, cmd_IdempotencyKey = idemKey,
      cmd_UserID = ''u1'', cmd_CardID = ''card1'', cmd_Country = ''BR'', cmd_Currency = ''BRL'',
      cmd_PointOfSale = ''POS''\<rparr>"

text \<open>
  \<open>runCommands\<close> processes a list of events one after the other and returns the ledger
  they leave; \<open>approvedTotal\<close> is the sum, over the integers, of the local amounts of the
  approved adjustments of a list.
\<close>

definition runCommands :: "Repository \<Rightarrow> ProcessTransactionCommand list \<Rightarrow> Repository" where
  "runCommands r cmds = foldl (\<lambda>r' cmd. fst (ProcessTransaction r' cmd)) r cmds"

definition approvedTotal :: "Adjustment list \<Rightarrow> int" where
  "approvedTotal adjs =
     (\<Sum>a \<leftarrow> filter (\<lambda>a. adj_Status a = StatusApproved) adjs. sint (Amount (Local (adj_Amount a))))"

text \<open>
  A commit is one call of \<open>SaveTransaction\<close> or \<open>SaveAdjustment\<close>. Each call holds the
  write lock from its first statement to its return, so the calls of concurrent requests
  take effect one after the other, in the order in which they get the lock: what the
  repository can do is what \<open>runCommits\<close> does on some list of commits. It returns the
  final repository and the error of every commit, in order.
\<close>

datatype commit = CommitTransaction Transaction | CommitAdjustment Adjustment

fun commitKey :: "commit \<Rightarrow> string" where
  "commitKey (CommitTransaction tx) = ev_IdempotencyKey (tx_Event tx)"
| "commitKey (CommitAdjustment adj) = ev_IdempotencyKey (adj_Event adj)"

fun applyCommit :: "Repository \<Rightarrow> commit \<Rightarrow> Repository \<times> error option" where
  "applyCommit r (CommitTransaction tx) = SaveTransaction r tx"
| "applyCommit r (CommitAdjustment adj) = SaveAdjustment r adj"

fun runCommits :: "Repository \<Rightarrow> commit list \<Rightarrow> Repository \<times> error option list" where
  "runCommits r [] = (r, [])"
| "runCommits r (c # cs) =
     (case applyCommit r c of
        (r', out) \<Rightarrow> (case runCommits r' cs of (r'', outs) \<Rightarrow> (r'', out # outs)))"

text \<open>
  The same two methods step by step, for calls that run concurrently. A call waits for the
  write lock (\<^verbatim>\<open>r.mu.Lock()\<close> blocks while another call holds it), then makes its checks
  (\<open>checkCommit\<close>), and either returns the error or makes its inserts (\<open>insertCommit\<close>) and
  returns; the deferred \<^verbatim>\<open>Unlock\<close> releases the lock at the return.
\<close>

definition checkCommit :: "Repository \<Rightarrow> commit \<Rightarrow> error option" where
  "checkCommit r c =
     (case c of
        CommitTransaction tx \<Rightarrow>
          if map_of (idempotencyKeys r) (ev_IdempotencyKey (tx_Event tx)) \<noteq> None
            then Some ErrDuplicateIdempotencyKey
          else if map_of (transactions r) (tx_ID tx) \<noteq> None
            then Some ErrDuplicateTransactionID
          else None
      | CommitAdjustment adj \<Rightarrow>
          if map_of (idempotencyKeys r) (ev_IdempotencyKey (adj_Event adj)) \<noteq> None
            then Some ErrDuplicateIdempotencyKey
          else None)"

definition insertCommit :: "Repository \<Rightarrow> commit \<Rightarrow> Repository" where
  "insertCommit r c =
     (case c of
        CommitTransaction tx \<Rightarrow>
          r\<lparr>idempotencyKeys :=
              AList.update (ev_IdempotencyKey (tx_Event tx)) (tx_ID tx) (idempotencyKeys r),
            transactions := AList.update (tx_ID tx) tx (transactions r)\<rparr>
      | CommitAdjustment adj \<Rightarrow>
          r\<lparr>idempotencyKeys :=
              AList.update (ev_IdempotencyKey (adj_Event adj)) (adj_ID adj) (idempotencyKeys r),
            adjustments :=
              AList.update (adj_OriginalTransactionID adj)
                (adjustmentsOf r (adj_OriginalTransactionID adj) @ [adj]) (adjustments r)\<rparr>)"

text \<open>
  The state of the concurrent calls \<open>cs\<close>: the repository, the holder of the lock, the
  phase of every call, and the calls that have returned, in the order of their returns. A
  schedule is the list of the calls that are given the next step, one after the other; a
  call that waits for a lock that is held, or that has returned, does not move.
\<close>

datatype phase = Waiting | Checking | Inserting | Returned "error option"

record system =
  sys_repo :: Repository
  sys_lock :: "nat option"
  sys_phase :: "phase list"
  sys_order :: "nat list"

definition initial :: "Repository \<Rightarrow> commit list \<Rightarrow> system" where
  "initial r0 cs =
     \<lparr>sys_repo = r0, sys_lock = None, sys_phase = replicate (length cs) Waiting, sys_order = []\<rparr>"

definition stepCall :: "commit list \<Rightarrow> system \<Rightarrow> nat \<Rightarrow> system" where
  "stepCall cs s i =
     (if length cs \<le> i then s
      else case sys_phase s ! i of
        Waiting \<Rightarrow>
          if sys_lock s = None
          then s\<lparr>sys_lock := Some i, sys_phase := (sys_phase s)[i := Checking]\<rparr>
          else s
      | Checking \<Rightarrow>
          (case checkCommit (sys_repo s) (cs ! i) of
             Some err \<Rightarrow>
               s\<lparr>sys_lock := None, sys_phase := (sys_phase s)[i := Returned (Some err)],
                 sys_order := sys_order s @ [i]\<rparr>
           | None \<Rightarrow> s\<lparr>sys_phase := (sys_phase s)[i := Inserting]\<rparr>)
      | Inserting \<Rightarrow>
          s\<lparr>sys_repo := insertCommit (sys_repo s) (cs ! i), sys_lock := None,
            sys_phase := (sys_phase s)[i := Returned None],
            sys_order := sys_order s @ [i]\<rparr>
      | Returned err \<Rightarrow> s)"

definition runSchedule :: "commit list \<Rightarrow> system \<Rightarrow> nat list \<Rightarrow> system" where
  "runSchedule cs s schedule = foldl (stepCall cs) s schedule"

text \<open>
  \<open>returnedError s i\<close> is the error that call \<open>i\<close> has returned. \<open>lockInvariant\<close> is what
  the lock maintains: only its holder is between \<^verbatim>\<open>Lock\<close> and \<^verbatim>\<open>Unlock\<close>, the repository
  has not changed since the holder's checks passed, and the repository and the returned
  errors are those of the sequential run of the returned calls in the order of their
  returns.
\<close>

definition returnedError :: "system \<Rightarrow> nat \<Rightarrow> error option" where
  "returnedError s i = (case sys_phase s ! i of Returned err \<Rightarrow> err | _ \<Rightarrow> None)"

definition lockInvariant :: "commit list \<Rightarrow> Repository \<Rightarrow> system \<Rightarrow> bool" where
  "lockInvariant cs r0 s \<longleftrightarrow>
     length (sys_phase s) = length cs \<and>
     (\<forall>i < length cs. sys_phase s ! i = Checking \<or> sys_phase s ! i = Inserting \<longrightarrow>
        sys_lock s = Some i) \<and>
     (\<forall>i < length cs. sys_phase s ! i = Inserting \<longrightarrow>
        checkCommit (sys_repo s) (cs ! i) = None) \<and>
     (\<forall>i \<in> set (sys_order s). i < length cs \<and> (\<exists>err. sys_phase s ! i = Returned err)) \<and>
     runCommits r0 (map ((!) cs) (sys_order s)) =
       (sys_repo s, map (returnedError s) (sys_order s))"

text \<open>
  Every purchase is stored under its own id, and no id is stored twice; the listing then
  has one entry for each id.
\<close>

definition transactionsIndexed :: "Repository \<Rightarrow> bool" where
  "transactionsIndexed r \<longleftrightarrow>
     distinct (map fst (transactions r)) \<and> map tx_ID (ListTransactions r) = map fst (transactions r)"

text \<open>
  What the ledger keeps when no sum overflows: every purchase has a local amount from 100
  to 500000; adjustments are only recorded for a purchase of the ledger, and the approved
  ones add up to at most its local amount; approved adjustments have non-negative local
  amounts.
\<close>

definition ledgerOK :: "Repository \<Rightarrow> bool" where
  "ledgerOK r \<longleftrightarrow>
     (\<forall>oid p. map_of (transactions r) oid = Some p \<longrightarrow>
        100 \<le> sint (Amount (Local (tx_Amount p))) \<and>
        sint (Amount (Local (tx_Amount p))) \<le> 500000) \<and>
     (\<forall>oid. adjustmentsOf r oid \<noteq> [] \<longrightarrow>
        (\<exists>p. map_of (transactions r) oid = Some p \<and>
             approvedTotal (adjustmentsOf r oid) \<le> sint (Amount (Local (tx_Amount p))))) \<and>
     (\<forall>oid. \<forall>a \<in> set (adjustmentsOf r oid).
        adj_Status a = StatusApproved \<longrightarrow> 0 \<le> sint (Amount (Local (adj_Amount a))))"

section \<open>Properties\<close>

lemmas service_defs =
  ProcessTransaction_def processPurchase_def processAdjustment_def
  TypePurchase_def TypeRefund_def TypeReversalPurchase_def StatusApproved_def StatusRejected_def
  GetByIdempotencyKey_def GetTransactionByID_def GetAdjustmentsByTransactionID_def adjustmentsOf_def
  SaveTransaction_def SaveAdjustment_def NewRepository_def
  buildAmount_def NewMoney_def NewPurchase_def NewAdjustment_def merchantOf_def eventOf_def
  MinPurchaseAmount_def MaxPurchaseAmount_def sumExistingAdjustments_def
  ValidateAgainstPurchase_def CanReceiveAdjustment_def IsApprovedPurchase_def
  Money_Add_def Money_GreaterThan_def noResult_def word_sless_alt

lemma sint_add_no_overflow:
  fixes a b :: int64
  assumes "- (2 ^ 63) \<le> sint a + sint b" and "sint a + sint b < 2 ^ 63"
  shows "sint (a + b) = sint a + sint b"
  using assms by (simp add: sint_word_ariths signed_take_bit_int_eq_self)

subsection \<open>The tests of the repository\<close>

text \<open>
  The model gives the results that \<^verbatim>\<open>service_test.go\<close> expects from the service, and those
  of the scenarios of the specification: the budget of 10000 with two refunds of 6000, the
  purchase of 30000 refunded in two halves and then by 1 more, and the refund that arrives
  before its purchase and is retried after it.
\<close>

lemmas example_defs = runCommands_def service_defs makePurchaseCmd_def makeAdjustCmd_def

lemma test_ProcessRefundPartialMultiple:
  "snd (ProcessTransaction
          (runCommands NewRepository
             [makePurchaseCmd ''tx1'' ''APPROVED'' ''idem1'' 1000,
              makeAdjustCmd ''adj1'' ''REFUND'' ''APPROVED'' ''tx1'' ''idem-adj1'' 400])
          (makeAdjustCmd ''adj2'' ''REFUND'' ''APPROVED'' ''tx1'' ''idem-adj2'' 400))
     = (\<lparr>res_TransactionID = ''adj2'', res_Idempotent = False\<rparr>, None)"
  by (simp add: example_defs)

lemma test_ProcessReversalAfterPartialRefund:
  "snd (ProcessTransaction
          (runCommands NewRepository
             [makePurchaseCmd ''tx1'' ''APPROVED'' ''idem1'' 1000,
              makeAdjustCmd ''adj1'' ''REFUND'' ''APPROVED'' ''tx1'' ''idem-adj1'' 600])
          (makeAdjustCmd ''adj2'' ''REVERSAL_PURCHASE'' ''APPROVED'' ''tx1'' ''idem-adj2'' 1000))
     = (noResult, Some ErrExceedsOriginalAmount)"
  by (simp add: example_defs)

lemma test_ProcessAdjustmentOnRejectedPurchase:
  "snd (ProcessTransaction
          (runCommands NewRepository [makePurchaseCmd ''tx1'' ''REJECTED'' ''idem1'' 1000])
          (makeAdjustCmd ''adj1'' ''REFUND'' ''APPROVED'' ''tx1'' ''idem-adj1'' 500))
     = (noResult, Some ErrPurchaseNotApproved)"
  by (simp add: example_defs)

lemma test_ProcessDuplicateTransactionID:
  "snd (ProcessTransaction
          (runCommands NewRepository [makePurchaseCmd ''tx1'' ''APPROVED'' ''idem1'' 1000])
          (makePurchaseCmd ''tx1'' ''APPROVED'' ''idem2'' 1000))
     = (noResult, Some ErrDuplicateTransactionID)"
  by (simp add: example_defs)

lemma test_ProcessAmountOutOfRange:
  "snd (ProcessTransaction NewRepository (makePurchaseCmd ''tx1'' ''APPROVED'' ''idem-low'' 50))
     = (noResult, Some ErrAmountOutOfRange) \<and>
   snd (ProcessTransaction NewRepository (makePurchaseCmd ''tx2'' ''APPROVED'' ''idem-high'' 600000))
     = (noResult, Some ErrAmountOutOfRange) \<and>
   snd (ProcessTransaction NewRepository (makePurchaseCmd ''tx1'' ''APPROVED'' ''idem-neg'' (- 100)))
     = (noResult, Some ErrNegativeAmount)"
  by (simp add: example_defs)

lemma scenario_budget:
  "snd (ProcessTransaction
          (runCommands NewRepository
             [makePurchaseCmd ''tx1'' ''APPROVED'' ''idem1'' 10000,
              makeAdjustCmd ''adj1'' ''REFUND'' ''APPROVED'' ''tx1'' ''idem-adj1'' 6000])
          (makeAdjustCmd ''adj2'' ''REFUND'' ''APPROVED'' ''tx1'' ''idem-adj2'' 6000))
     = (noResult, Some ErrExceedsOriginalAmount) \<and>
   snd (ProcessTransaction
          (runCommands NewRepository
             [makePurchaseCmd ''tx1'' ''APPROVED'' ''idem1'' 10000,
              makeAdjustCmd ''adj1'' ''REFUND'' ''APPROVED'' ''tx1'' ''idem-adj1'' 6000])
          (makeAdjustCmd ''adj2'' ''REFUND'' ''REJECTED'' ''tx1'' ''idem-adj2'' 6000))
     = (\<lparr>res_TransactionID = ''adj2'', res_Idempotent = False\<rparr>, None)"
  by (simp add: example_defs)

lemma scenario_end_to_end:
  "snd (ProcessTransaction
          (runCommands NewRepository
             [makePurchaseCmd ''tx1'' ''APPROVED'' ''idem1'' 30000,
              makeAdjustCmd ''adj1'' ''REFUND'' ''APPROVED'' ''tx1'' ''idem-adj1'' 15000])
          (makeAdjustCmd ''adj2'' ''REFUND'' ''APPROVED'' ''tx1'' ''idem-adj2'' 15000))
     = (\<lparr>res_TransactionID = ''adj2'', res_Idempotent = False\<rparr>, None) \<and>
   snd (ProcessTransaction
          (runCommands NewRepository
             [makePurchaseCmd ''tx1'' ''APPROVED'' ''idem1'' 30000,
              makeAdjustCmd ''adj1'' ''REFUND'' ''APPROVED'' ''tx1'' ''idem-adj1'' 15000,
              makeAdjustCmd ''adj2'' ''REFUND'' ''APPROVED'' ''tx1'' ''idem-adj2'' 15000])
          (makeAdjustCmd ''adj3'' ''REFUND'' ''APPROVED'' ''tx1'' ''idem-adj3'' 1))
     = (noResult, Some ErrExceedsOriginalAmount)"
  by (simp add: example_defs)

lemma scenario_out_of_order:
  "snd (ProcessTransaction NewRepository
          (makeAdjustCmd ''adj1'' ''REFUND'' ''APPROVED'' ''tx1'' ''idem-adj1'' 500))
     = (noResult, Some ErrTransactionNotFound) \<and>
   snd (ProcessTransaction
          (runCommands NewRepository
             [makeAdjustCmd ''adj1'' ''REFUND'' ''APPROVED'' ''tx1'' ''idem-adj1'' 500,
              makePurchaseCmd ''tx1'' ''APPROVED'' ''idem1'' 1000])
          (makeAdjustCmd ''adj1'' ''REFUND'' ''APPROVED'' ''tx1'' ''idem-adj1'' 500))
     = (\<lparr>res_TransactionID = ''adj1'', res_Idempotent = False\<rparr>, None)"
  by (simp add: example_defs)

subsection \<open>Money\<close>

text \<open>
  Claim C9 says that \<open>Add\<close> and \<open>GreaterThan\<close> fail with \<open>ErrCurrencyMismatch\<close> exactly when
  the currencies differ, and that on equal currencies \<open>Add\<close> returns the money whose amount
  is the sum of the two amounts. \<open>Add\<close> adds two \<^verbatim>\<open>int64\<close> without a check: for
  9223372036854775807 BRL and 1 BRL, both of which \<open>NewMoney\<close> accepts, it returns no error
  and the amount \<open>-9223372036854775808\<close>, while the two amounts add up to
  9223372036854775808. The returned money is negative, which \<open>NewMoney\<close> refuses.
\<close>

theorem Money_Add_overflow:
  "NewMoney 9223372036854775807 ''BRL'' = Inr \<lparr>Amount = 9223372036854775807, Currency = ''BRL''\<rparr> \<and>
   NewMoney 1 ''BRL'' = Inr \<lparr>Amount = 1, Currency = ''BRL''\<rparr> \<and>
   Money_Add \<lparr>Amount = 9223372036854775807, Currency = ''BRL''\<rparr> \<lparr>Amount = 1, Currency = ''BRL''\<rparr>
     = Inr \<lparr>Amount = 9223372036854775807 + 1, Currency = ''BRL''\<rparr> \<and>
   sint (9223372036854775807 + 1 :: int64) = - 9223372036854775808 \<and>
   sint (9223372036854775807 :: int64) + sint (1 :: int64) = 9223372036854775808 \<and>
   NewMoney (9223372036854775807 + 1) ''BRL'' = Inl ErrNegativeAmount"
  by (simp add: NewMoney_def Money_Add_def word_sless_alt)

text \<open>
  What holds of the two methods for every pair of moneys. They fail with
  \<open>ErrCurrencyMismatch\<close> exactly when the two currency strings differ (string equality, hence
  case-sensitive), so no result is ever produced across currencies. When the currencies are
  equal, \<open>GreaterThan\<close> returns the signed comparison and \<open>Add\<close> returns, in the same
  currency, the \<^verbatim>\<open>int64\<close> sum of the two amounts, which is their sum over the integers
  whenever that fits in 64 bits.
\<close>

lemma Money_currency_match:
  "(failsWith (Money_Add a b) ErrCurrencyMismatch \<longleftrightarrow> Currency a \<noteq> Currency b) \<and>
   (failsWith (Money_GreaterThan a b) ErrCurrencyMismatch \<longleftrightarrow> Currency a \<noteq> Currency b) \<and>
   (Currency a = Currency b \<longrightarrow>
      Money_Add a b = Inr \<lparr>Amount = Amount a + Amount b, Currency = Currency a\<rparr> \<and>
      Money_GreaterThan a b = Inr (sint (Amount b) < sint (Amount a))) \<and>
   (Currency a = Currency b \<and> - (2 ^ 63) \<le> sint (Amount a) + sint (Amount b) \<and>
    sint (Amount a) + sint (Amount b) < 2 ^ 63 \<longrightarrow>
      (\<exists>m. Money_Add a b = Inr m \<and> Currency m = Currency b \<and>
           sint (Amount m) = sint (Amount a) + sint (Amount b)))"
  by (simp add: failsWith_def Money_Add_def Money_GreaterThan_def word_sless_alt sint_add_no_overflow)

text \<open>
  The lemma at 100 BRL and 50 in \<open>brl\<close>, \<open>USD\<close> and \<open>BRL\<close>: lower case is another
  currency.
\<close>

lemma Money_currency_match_example:
  "failsWith (Money_Add \<lparr>Amount = 100, Currency = ''BRL''\<rparr> \<lparr>Amount = 50, Currency = ''brl''\<rparr>) ErrCurrencyMismatch \<and>
   failsWith (Money_GreaterThan \<lparr>Amount = 100, Currency = ''BRL''\<rparr> \<lparr>Amount = 50, Currency = ''USD''\<rparr>) ErrCurrencyMismatch \<and>
   Money_Add \<lparr>Amount = 100, Currency = ''BRL''\<rparr> \<lparr>Amount = 50, Currency = ''BRL''\<rparr> = Inr \<lparr>Amount = 150, Currency = ''BRL''\<rparr> \<and>
   Money_GreaterThan \<lparr>Amount = 100, Currency = ''BRL''\<rparr> \<lparr>Amount = 50, Currency = ''BRL''\<rparr> = Inr True"
  using Money_currency_match [of "\<lparr>Amount = 100, Currency = ''BRL''\<rparr>" "\<lparr>Amount = 50, Currency = ''brl''\<rparr>"]
        Money_currency_match [of "\<lparr>Amount = 100, Currency = ''BRL''\<rparr>" "\<lparr>Amount = 50, Currency = ''USD''\<rparr>"]
        Money_currency_match [of "\<lparr>Amount = 100, Currency = ''BRL''\<rparr>" "\<lparr>Amount = 50, Currency = ''BRL''\<rparr>"]
  by simp

subsection \<open>Purchase amounts\<close>

text \<open>
  Claim C5. With a non-empty transaction id, event id and idempotency key, building the local
  money with \<open>NewMoney\<close> and then the purchase with \<open>NewPurchase\<close> succeeds if and only if
  \<open>100 \<le> a \<le> 500000\<close>. A negative amount fails in \<open>NewMoney\<close> with \<open>ErrNegativeAmount\<close>,
  before the range check; an amount from 0 to 99 or above 500000 fails with
  \<open>ErrAmountOutOfRange\<close>, which a negative amount therefore never gives.
\<close>

theorem NewPurchase_amount_range:
  assumes "id' \<noteq> []" and "ev_ID event \<noteq> []" and "ev_IdempotencyKey event \<noteq> []"
  shows "let res = (case NewMoney a currency of
                      Inl err \<Rightarrow> Inl err
                    | Inr m \<Rightarrow> NewPurchase id' status (amount\<lparr>Local := m\<rparr>) merchant event
                                userID cardID country cur pointOfSale)
         in ((\<exists>tx. res = Inr tx) \<longleftrightarrow> 100 \<le> sint a \<and> sint a \<le> 500000) \<and>
            (sint a < 0 \<longrightarrow> res = Inl ErrNegativeAmount) \<and>
            (0 \<le> sint a \<and> (sint a < 100 \<or> 500000 < sint a) \<longrightarrow> res = Inl ErrAmountOutOfRange) \<and>
            (res = Inl ErrAmountOutOfRange \<longrightarrow> 0 \<le> sint a)"
  using assms
  by (auto simp: Let_def NewMoney_def NewPurchase_def MinPurchaseAmount_def MaxPurchaseAmount_def
        word_sless_alt)

text \<open>
  The theorem at the amounts 100, -1, 99 and 500001.
\<close>

theorem NewPurchase_amount_range_witness:
  "(\<exists>tx. (case NewMoney 100 ''BRL'' of
            Inl err \<Rightarrow> Inl err
          | Inr m \<Rightarrow> NewPurchase ''tx1'' StatusApproved ((makeAmountBreakdown 0 ''BRL'')\<lparr>Local := m\<rparr>)
                      makeMerchant (makeEvent ''idem1'') ''u'' ''c'' ''BR'' ''BRL'' ''POS'') = Inr tx) \<and>
   (case NewMoney (- 1) ''BRL'' of
      Inl err \<Rightarrow> Inl err
    | Inr m \<Rightarrow> NewPurchase ''tx1'' StatusApproved ((makeAmountBreakdown 0 ''BRL'')\<lparr>Local := m\<rparr>)
                makeMerchant (makeEvent ''idem1'') ''u'' ''c'' ''BR'' ''BRL'' ''POS'') = Inl ErrNegativeAmount \<and>
   (case NewMoney 99 ''BRL'' of
      Inl err \<Rightarrow> Inl err
    | Inr m \<Rightarrow> NewPurchase ''tx1'' StatusApproved ((makeAmountBreakdown 0 ''BRL'')\<lparr>Local := m\<rparr>)
                makeMerchant (makeEvent ''idem1'') ''u'' ''c'' ''BR'' ''BRL'' ''POS'') = Inl ErrAmountOutOfRange \<and>
   (case NewMoney 500001 ''BRL'' of
      Inl err \<Rightarrow> Inl err
    | Inr m \<Rightarrow> NewPurchase ''tx1'' StatusApproved ((makeAmountBreakdown 0 ''BRL'')\<lparr>Local := m\<rparr>)
                makeMerchant (makeEvent ''idem1'') ''u'' ''c'' ''BR'' ''BRL'' ''POS'') = Inl ErrAmountOutOfRange"
proof -
  have ev: "ev_ID (makeEvent ''idem1'') \<noteq> []" "ev_IdempotencyKey (makeEvent ''idem1'') \<noteq> []"
    by (simp_all add: makeEvent_def)
  have tid: "''tx1'' \<noteq> []" by simp
  note inst = NewPurchase_amount_range [OF tid ev, where currency = "''BRL''"
      and status = StatusApproved and amount = "makeAmountBreakdown 0 ''BRL''"
      and merchant = makeMerchant and userID = "''u''" and cardID = "''c''"
      and country = "''BR''" and cur = "''BRL''" and pointOfSale = "''POS''"]
  show ?thesis
    using inst [where a = 100] inst [where a = "- 1"] inst [where a = 99] inst [where a = 500001]
    by (simp add: Let_def)
qed

text \<open>
  In \<open>processPurchase\<close> the local money is built first: a negative local amount under a new
  idempotency key gives \<open>ErrNegativeAmount\<close> whatever the other fields are.
\<close>

lemma processPurchase_negative_amount:
  assumes "GetByIdempotencyKey r (cmd_IdempotencyKey cmd) = None"
    and "sint (cmd_LocalAmount cmd) < 0"
  shows "processPurchase r cmd = (r, noResult, Some ErrNegativeAmount)"
  using assms
  by (simp add: processPurchase_def buildAmount_def NewMoney_def word_sless_alt)

subsection \<open>Validation of an adjustment\<close>

text \<open>
  Claim C6, as stated, leaves out the currency checks of \<open>Add\<close> and \<open>GreaterThan\<close>: an
  approved refund of 500 USD against an approved purchase of 1000 BRL, with a running total
  of 0 USD as \<open>processAdjustment\<close> builds it, does not exceed the amount and is still
  refused, with \<open>ErrCurrencyMismatch\<close>.
\<close>

theorem ValidateAgainstPurchase_currency_counterexample:
  "CanReceiveAdjustment (makePurchase ''tx1'' StatusApproved ''idem1'' 1000 ''BRL'') \<and>
   adj_Status (makeAdjustment ''adj1'' StatusApproved ''tx1'' ''adj-idem1'' 500 ''USD'') = StatusApproved \<and>
   \<not> (sint (1000 :: int64) < sint (0 :: int64) + sint (500 :: int64)) \<and>
   ValidateAgainstPurchase (makeAdjustment ''adj1'' StatusApproved ''tx1'' ''adj-idem1'' 500 ''USD'')
     (makePurchase ''tx1'' StatusApproved ''idem1'' 1000 ''BRL'') \<lparr>Amount = 0, Currency = ''USD''\<rparr>
     = Some (Wrapped ErrCurrencyMismatch ''USD vs BRL'')"
  by (simp add: ValidateAgainstPurchase_def CanReceiveAdjustment_def IsApprovedPurchase_def
        Money_Add_def Money_GreaterThan_def makePurchase_def makeAdjustment_def
        makeAmountBreakdown_def)

text \<open>
  Claim C6, amended. \<open>ValidateAgainstPurchase\<close> returns \<open>ErrPurchaseNotApproved\<close> when the
  original is not an approved purchase; otherwise it succeeds when the adjustment is not
  approved, whatever its amount and currency; otherwise it fails with \<open>ErrCurrencyMismatch\<close>
  when the currency of the running total differs from that of the adjustment or of the
  purchase; otherwise, when the sum of the running total and the adjustment's local amount
  fits in an \<^verbatim>\<open>int64\<close>, it fails with \<open>ErrExceedsOriginalAmount\<close> exactly when that sum is
  greater than the purchase's local amount (equality is allowed) and succeeds otherwise.
\<close>

theorem ValidateAgainstPurchase_cases:
  "(\<not> (tx_Type original = TypePurchase \<and> tx_Status original = StatusApproved) \<longrightarrow>
      ValidateAgainstPurchase a original existingTotal = Some ErrPurchaseNotApproved) \<and>
   (tx_Type original = TypePurchase \<and> tx_Status original = StatusApproved \<and>
    adj_Status a \<noteq> StatusApproved \<longrightarrow>
      ValidateAgainstPurchase a original existingTotal = None) \<and>
   (tx_Type original = TypePurchase \<and> tx_Status original = StatusApproved \<and>
    adj_Status a = StatusApproved \<and>
    (Currency existingTotal \<noteq> Currency (Local (adj_Amount a)) \<or>
     Currency existingTotal \<noteq> Currency (Local (tx_Amount original))) \<longrightarrow>
      (\<exists>err. ValidateAgainstPurchase a original existingTotal = Some err \<and>
             errors_Is err ErrCurrencyMismatch)) \<and>
   (tx_Type original = TypePurchase \<and> tx_Status original = StatusApproved \<and>
    adj_Status a = StatusApproved \<and>
    Currency existingTotal = Currency (Local (adj_Amount a)) \<and>
    Currency existingTotal = Currency (Local (tx_Amount original)) \<and>
    - (2 ^ 63) \<le> sint (Amount existingTotal) + sint (Amount (Local (adj_Amount a))) \<and>
    sint (Amount existingTotal) + sint (Amount (Local (adj_Amount a))) < 2 ^ 63 \<longrightarrow>
      ValidateAgainstPurchase a original existingTotal =
        (if sint (Amount (Local (tx_Amount original)))
              < sint (Amount existingTotal) + sint (Amount (Local (adj_Amount a)))
         then Some ErrExceedsOriginalAmount else None))"
  by (simp add: ValidateAgainstPurchase_def CanReceiveAdjustment_def IsApprovedPurchase_def
        Money_Add_def Money_GreaterThan_def word_sless_alt sint_add_no_overflow)

text \<open>
  The theorem on the cases of \<^verbatim>\<open>TestValidateAgainstPurchase\<close>: a rejected purchase, a
  rejected adjustment of 1500, a refund in another currency, 500 + 600 against 1000, and
  500 + 500 against 1000.
\<close>

theorem ValidateAgainstPurchase_cases_witness:
  "ValidateAgainstPurchase (makeAdjustment ''adj1'' StatusApproved ''tx1'' ''adj-idem1'' 500 ''BRL'')
     (makePurchase ''tx1'' StatusRejected ''idem1'' 1000 ''BRL'') \<lparr>Amount = 0, Currency = ''BRL''\<rparr>
     = Some ErrPurchaseNotApproved \<and>
   ValidateAgainstPurchase (makeAdjustment ''adj1'' StatusRejected ''tx1'' ''adj-idem1'' 1500 ''BRL'')
     (makePurchase ''tx1'' StatusApproved ''idem1'' 1000 ''BRL'') \<lparr>Amount = 0, Currency = ''BRL''\<rparr>
     = None \<and>
   (\<exists>err. ValidateAgainstPurchase (makeAdjustment ''adj1'' StatusApproved ''tx1'' ''adj-idem1'' 500 ''USD'')
     (makePurchase ''tx1'' StatusApproved ''idem1'' 1000 ''BRL'') \<lparr>Amount = 0, Currency = ''BRL''\<rparr>
     = Some err \<and> errors_Is err ErrCurrencyMismatch) \<and>
   ValidateAgainstPurchase (makeAdjustment ''adj2'' StatusApproved ''tx1'' ''adj-idem2'' 600 ''BRL'')
     (makePurchase ''tx1'' StatusApproved ''idem1'' 1000 ''BRL'') \<lparr>Amount = 500, Currency = ''BRL''\<rparr>
     = Some ErrExceedsOriginalAmount \<and>
   ValidateAgainstPurchase (makeAdjustment ''adj2'' StatusApproved ''tx1'' ''adj-idem2'' 500 ''BRL'')
     (makePurchase ''tx1'' StatusApproved ''idem1'' 1000 ''BRL'') \<lparr>Amount = 500, Currency = ''BRL''\<rparr>
     = None"
  using ValidateAgainstPurchase_cases [of "makePurchase ''tx1'' StatusRejected ''idem1'' 1000 ''BRL''"
          "makeAdjustment ''adj1'' StatusApproved ''tx1'' ''adj-idem1'' 500 ''BRL''"
          "\<lparr>Amount = 0, Currency = ''BRL''\<rparr>"]
        ValidateAgainstPurchase_cases [of "makePurchase ''tx1'' StatusApproved ''idem1'' 1000 ''BRL''"
          "makeAdjustment ''adj1'' StatusRejected ''tx1'' ''adj-idem1'' 1500 ''BRL''"
          "\<lparr>Amount = 0, Currency = ''BRL''\<rparr>"]
        ValidateAgainstPurchase_cases [of "makePurchase ''tx1'' StatusApproved ''idem1'' 1000 ''BRL''"
          "makeAdjustment ''adj1'' StatusApproved ''tx1'' ''adj-idem1'' 500 ''USD''"
          "\<lparr>Amount = 0, Currency = ''BRL''\<rparr>"]
        ValidateAgainstPurchase_cases [of "makePurchase ''tx1'' StatusApproved ''idem1'' 1000 ''BRL''"
          "makeAdjustment ''adj2'' StatusApproved ''tx1'' ''adj-idem2'' 600 ''BRL''"
          "\<lparr>Amount = 500, Currency = ''BRL''\<rparr>"]
        ValidateAgainstPurchase_cases [of "makePurchase ''tx1'' StatusApproved ''idem1'' 1000 ''BRL''"
          "makeAdjustment ''adj2'' StatusApproved ''tx1'' ''adj-idem2'' 500 ''BRL''"
          "\<lparr>Amount = 500, Currency = ''BRL''\<rparr>"]
  by (simp add: makePurchase_def makeAdjustment_def makeAmountBreakdown_def
        TypePurchase_def StatusApproved_def StatusRejected_def)

subsection \<open>Saving a purchase\<close>

text \<open>
  Claim C4. \<open>SaveTransaction\<close> first checks the idempotency key and returns
  \<open>ErrDuplicateIdempotencyKey\<close> when it is recorded, also when the transaction id is recorded
  too; then it checks the transaction id and returns \<open>ErrDuplicateTransactionID\<close>; only when
  both are new it records the key and the transaction, leaving the adjustments alone.
  Whenever it returns an error, the repository is the one it was given.
\<close>

theorem SaveTransaction_order:
  "(map_of (idempotencyKeys r) (ev_IdempotencyKey (tx_Event tx)) \<noteq> None \<longrightarrow>
      SaveTransaction r tx = (r, Some ErrDuplicateIdempotencyKey)) \<and>
   (map_of (idempotencyKeys r) (ev_IdempotencyKey (tx_Event tx)) = None \<and>
    map_of (transactions r) (tx_ID tx) \<noteq> None \<longrightarrow>
      SaveTransaction r tx = (r, Some ErrDuplicateTransactionID)) \<and>
   (map_of (idempotencyKeys r) (ev_IdempotencyKey (tx_Event tx)) = None \<and>
    map_of (transactions r) (tx_ID tx) = None \<longrightarrow>
      (\<exists>r'. SaveTransaction r tx = (r', None) \<and>
            map_of (idempotencyKeys r') =
              (map_of (idempotencyKeys r))(ev_IdempotencyKey (tx_Event tx) \<mapsto> tx_ID tx) \<and>
            map_of (transactions r') = (map_of (transactions r))(tx_ID tx \<mapsto> tx) \<and>
            adjustments r' = adjustments r)) \<and>
   (\<forall>r' err. SaveTransaction r tx = (r', Some err) \<longrightarrow> r' = r)"
  by (auto simp: SaveTransaction_def update_conv)

text \<open>
  The theorem on an empty repository, and on the repository that holds \<open>tx1\<close> under
  \<open>idem1\<close>: the same key again, and the same id under \<open>idem2\<close>.
\<close>

theorem SaveTransaction_order_witness:
  "SaveTransaction (fst (SaveTransaction NewRepository (makePurchase ''tx1'' StatusApproved ''idem1'' 1000 ''BRL'')))
     (makePurchase ''tx1'' StatusApproved ''idem1'' 1000 ''BRL'')
     = (fst (SaveTransaction NewRepository (makePurchase ''tx1'' StatusApproved ''idem1'' 1000 ''BRL'')),
        Some ErrDuplicateIdempotencyKey) \<and>
   SaveTransaction (fst (SaveTransaction NewRepository (makePurchase ''tx1'' StatusApproved ''idem1'' 1000 ''BRL'')))
     (makePurchase ''tx1'' StatusApproved ''idem2'' 1000 ''BRL'')
     = (fst (SaveTransaction NewRepository (makePurchase ''tx1'' StatusApproved ''idem1'' 1000 ''BRL'')),
        Some ErrDuplicateTransactionID) \<and>
   (\<exists>r'. SaveTransaction NewRepository (makePurchase ''tx1'' StatusApproved ''idem1'' 1000 ''BRL'') = (r', None) \<and>
         map_of (idempotencyKeys r') ''idem1'' = Some ''tx1'' \<and>
         map_of (transactions r') ''tx1'' = Some (makePurchase ''tx1'' StatusApproved ''idem1'' 1000 ''BRL''))"
proof -
  let ?p = "makePurchase ''tx1'' StatusApproved ''idem1'' 1000 ''BRL''"
  let ?q = "makePurchase ''tx1'' StatusApproved ''idem2'' 1000 ''BRL''"
  let ?r = "fst (SaveTransaction NewRepository ?p)"
  have r: "?r = \<lparr>transactions = [(''tx1'', ?p)], adjustments = [], idempotencyKeys = [(''idem1'', ''tx1'')]\<rparr>"
    by (simp add: SaveTransaction_def NewRepository_def makePurchase_def makeEvent_def)
  have a: "map_of (idempotencyKeys ?r) (ev_IdempotencyKey (tx_Event ?p)) \<noteq> None"
    unfolding r by (simp add: makePurchase_def makeEvent_def)
  have b: "map_of (idempotencyKeys ?r) (ev_IdempotencyKey (tx_Event ?q)) = None \<and>
           map_of (transactions ?r) (tx_ID ?q) \<noteq> None"
    unfolding r by (simp add: makePurchase_def makeEvent_def)
  have c: "map_of (idempotencyKeys NewRepository) (ev_IdempotencyKey (tx_Event ?p)) = None \<and>
           map_of (transactions NewRepository) (tx_ID ?p) = None"
    by (simp add: NewRepository_def)
  show ?thesis
    using SaveTransaction_order [of ?r ?p] SaveTransaction_order [of ?r ?q]
      SaveTransaction_order [of NewRepository ?p] a b c
    by (auto simp: makePurchase_def makeEvent_def)
qed




subsection \<open>Dispatch and the reference of an adjustment\<close>

text \<open>
  Claim C10. A command whose type is none of \<open>PURCHASE\<close>, \<open>REVERSAL_PURCHASE\<close> and
  \<open>REFUND\<close> fails with \<open>ErrInvalidTransactionType\<close>, whatever the repository and the other
  fields of the command are, and the repository is unchanged.
\<close>

theorem ProcessTransaction_invalid_type:
  assumes "cmd_TransactionType cmd \<noteq> TypePurchase"
    and "cmd_TransactionType cmd \<noteq> TypeReversalPurchase"
    and "cmd_TransactionType cmd \<noteq> TypeRefund"
  shows "ProcessTransaction r cmd =
           (r, noResult, Some (Wrapped ErrInvalidTransactionType (cmd_TransactionType cmd))) \<and>
         errors_Is (Wrapped ErrInvalidTransactionType (cmd_TransactionType cmd)) ErrInvalidTransactionType"
  using assms by (simp add: ProcessTransaction_def)

text \<open>
  The theorem on \<^verbatim>\<open>TestInvalidTransactionType\<close>: a purchase command with the type
  \<open>UNKNOWN\<close>.
\<close>

theorem ProcessTransaction_invalid_type_witness:
  "ProcessTransaction NewRepository ((makePurchaseCmd ''tx1'' ''APPROVED'' ''idem1'' 1000)\<lparr>cmd_TransactionType := ''UNKNOWN''\<rparr>)
     = (NewRepository, noResult, Some (Wrapped ErrInvalidTransactionType ''UNKNOWN''))"
  using ProcessTransaction_invalid_type
          [of "(makePurchaseCmd ''tx1'' ''APPROVED'' ''idem1'' 1000)\<lparr>cmd_TransactionType := ''UNKNOWN''\<rparr>" NewRepository]
  by (simp add: TypePurchase_def TypeReversalPurchase_def TypeRefund_def)

text \<open>
  Claim C8, as stated, fails when the idempotency key of the event is already recorded: the
  advisory lookup of the key comes before the lookup of the purchase. After the purchase
  \<open>tx1\<close> under \<open>idem1\<close>, a refund under \<open>idem1\<close> that refers to the absent \<open>tx9\<close> is
  answered as a replay, with \<open>ErrDuplicateIdempotencyKey\<close>.
\<close>

theorem processAdjustment_not_found_counterexample:
  "cmd_TransactionType (makeAdjustCmd ''adj1'' ''REFUND'' ''APPROVED'' ''tx9'' ''idem1'' 500) = TypeRefund \<and>
   cmd_OriginalTransactionID (makeAdjustCmd ''adj1'' ''REFUND'' ''APPROVED'' ''tx9'' ''idem1'' 500) \<noteq> [] \<and>
   GetTransactionByID (runCommands NewRepository [makePurchaseCmd ''tx1'' ''APPROVED'' ''idem1'' 1000]) ''tx9''
     = Inl ErrTransactionNotFound \<and>
   snd (ProcessTransaction (runCommands NewRepository [makePurchaseCmd ''tx1'' ''APPROVED'' ''idem1'' 1000])
          (makeAdjustCmd ''adj1'' ''REFUND'' ''APPROVED'' ''tx9'' ''idem1'' 500))
     = (\<lparr>res_TransactionID = ''adj1'', res_Idempotent = True\<rparr>, Some ErrDuplicateIdempotencyKey)"
  by (simp add: runCommands_def service_defs makePurchaseCmd_def makeAdjustCmd_def)

text \<open>
  Claim C8, amended. A \<open>REVERSAL_PURCHASE\<close> or \<open>REFUND\<close> event with an empty
  \<open>originalTransactionId\<close> fails with \<open>ErrOriginalTransactionRequired\<close>, whatever the ledger
  holds; one with a non-empty reference to a purchase absent from the ledger, under an
  idempotency key that is not yet recorded, fails with \<open>ErrTransactionNotFound\<close>; one with a
  non-empty reference under a recorded key is answered with \<open>ErrDuplicateIdempotencyKey\<close>
  and \<open>Idempotent = True\<close>. The ledger is unchanged in the three cases.
\<close>

theorem processAdjustment_reference_errors:
  assumes "cmd_TransactionType cmd = TypeReversalPurchase \<or> cmd_TransactionType cmd = TypeRefund"
  shows "(cmd_OriginalTransactionID cmd = [] \<longrightarrow>
            ProcessTransaction r cmd = (r, noResult, Some ErrOriginalTransactionRequired)) \<and>
         (cmd_OriginalTransactionID cmd \<noteq> [] \<and>
          map_of (idempotencyKeys r) (cmd_IdempotencyKey cmd) = None \<and>
          map_of (transactions r) (cmd_OriginalTransactionID cmd) = None \<longrightarrow>
            ProcessTransaction r cmd = (r, noResult, Some ErrTransactionNotFound)) \<and>
         (cmd_OriginalTransactionID cmd \<noteq> [] \<and>
          map_of (idempotencyKeys r) (cmd_IdempotencyKey cmd) \<noteq> None \<longrightarrow>
            ProcessTransaction r cmd =
              (r, \<lparr>res_TransactionID = cmd_TransactionID cmd, res_Idempotent = True\<rparr>,
               Some ErrDuplicateIdempotencyKey))"
  using assms
  by (auto simp: ProcessTransaction_def processAdjustment_def GetByIdempotencyKey_def
        GetTransactionByID_def TypePurchase_def TypeReversalPurchase_def TypeRefund_def)

text \<open>
  The theorem on \<^verbatim>\<open>TestProcessAdjustmentMissingOriginalID\<close> and
  \<^verbatim>\<open>TestProcessOutOfOrder\<close>, and on a ledger that holds the key of the event.
\<close>

theorem processAdjustment_reference_errors_witness:
  "ProcessTransaction NewRepository (makeAdjustCmd ''adj1'' ''REFUND'' ''APPROVED'' [] ''idem-adj1'' 500)
     = (NewRepository, noResult, Some ErrOriginalTransactionRequired) \<and>
   ProcessTransaction NewRepository (makeAdjustCmd ''adj1'' ''REFUND'' ''APPROVED'' ''tx1'' ''idem-adj1'' 500)
     = (NewRepository, noResult, Some ErrTransactionNotFound) \<and>
   ProcessTransaction \<lparr>transactions = [], adjustments = [], idempotencyKeys = [(''idem-adj1'', ''adj0'')]\<rparr>
       (makeAdjustCmd ''adj1'' ''REVERSAL_PURCHASE'' ''APPROVED'' ''tx1'' ''idem-adj1'' 500)
     = (\<lparr>transactions = [], adjustments = [], idempotencyKeys = [(''idem-adj1'', ''adj0'')]\<rparr>,
        \<lparr>res_TransactionID = ''adj1'', res_Idempotent = True\<rparr>, Some ErrDuplicateIdempotencyKey)"
  using processAdjustment_reference_errors
          [of "makeAdjustCmd ''adj1'' ''REFUND'' ''APPROVED'' [] ''idem-adj1'' 500" NewRepository]
        processAdjustment_reference_errors
          [of "makeAdjustCmd ''adj1'' ''REFUND'' ''APPROVED'' ''tx1'' ''idem-adj1'' 500" NewRepository]
        processAdjustment_reference_errors
          [of "makeAdjustCmd ''adj1'' ''REVERSAL_PURCHASE'' ''APPROVED'' ''tx1'' ''idem-adj1'' 500"
              "\<lparr>transactions = [], adjustments = [], idempotencyKeys = [(''idem-adj1'', ''adj0'')]\<rparr>"]
  by (simp add: makeAdjustCmd_def TypeReversalPurchase_def TypeRefund_def NewRepository_def)

subsection \<open>One commit for each idempotency key\<close>

lemma runCommits_Cons:
  "runCommits r (c # cs) =
     (fst (runCommits (fst (applyCommit r c)) cs),
      snd (applyCommit r c) # snd (runCommits (fst (applyCommit r c)) cs))"
  by (simp split: prod.splits)

lemma applyCommit_keeps_keys:
  "map_of (idempotencyKeys r) k \<noteq> None \<Longrightarrow>
   map_of (idempotencyKeys (fst (applyCommit r c))) k \<noteq> None"
  by (cases c) (auto simp: SaveTransaction_def SaveAdjustment_def update_conv)

lemma applyCommit_records_key:
  "snd (applyCommit r c) = None \<Longrightarrow>
   map_of (idempotencyKeys (fst (applyCommit r c))) (commitKey c) \<noteq> None"
  by (cases c) (auto simp: SaveTransaction_def SaveAdjustment_def update_conv split: if_splits)

lemma applyCommit_known_key:
  "map_of (idempotencyKeys r) (commitKey c) \<noteq> None \<Longrightarrow>
   applyCommit r c = (r, Some ErrDuplicateIdempotencyKey)"
  by (cases c) (auto simp: SaveTransaction_def SaveAdjustment_def)

lemma length_runCommits: "length (snd (runCommits r cs)) = length cs"
  by (induction cs arbitrary: r) (simp_all add: runCommits_Cons del: runCommits.simps(2))

lemma runCommits_known_key:
  "map_of (idempotencyKeys r) k \<noteq> None \<Longrightarrow> j < length cs \<Longrightarrow> commitKey (cs ! j) = k \<Longrightarrow>
   snd (runCommits r cs) ! j = Some ErrDuplicateIdempotencyKey"
proof (induction cs arbitrary: r j)
  case Nil
  then show ?case by simp
next
  case (Cons c cs)
  show ?case
  proof (cases j)
    case 0
    with Cons.prems have "applyCommit r c = (r, Some ErrDuplicateIdempotencyKey)"
      by (simp add: applyCommit_known_key)
    with 0 show ?thesis by (simp add: runCommits_Cons del: runCommits.simps(2))
  next
    case (Suc j')
    have "map_of (idempotencyKeys (fst (applyCommit r c))) k \<noteq> None"
      using Cons.prems(1) by (rule applyCommit_keeps_keys)
    with Suc Cons.prems have "snd (runCommits (fst (applyCommit r c)) cs) ! j' = Some ErrDuplicateIdempotencyKey"
      by (intro Cons.IH) auto
    with Suc show ?thesis by (simp add: runCommits_Cons del: runCommits.simps(2))
  qed
qed

lemma runCommits_later_key:
  assumes "i < j" and "j < length cs" and "commitKey (cs ! i) = commitKey (cs ! j)"
    and "snd (runCommits r cs) ! i = None"
  shows "snd (runCommits r cs) ! j = Some ErrDuplicateIdempotencyKey"
  using assms
proof (induction cs arbitrary: r i j)
  case Nil
  then show ?case by simp
next
  case (Cons c cs)
  obtain j' where j: "j = Suc j'" using Cons.prems(1) by (cases j) auto
  show ?case
  proof (cases i)
    case 0
    with Cons.prems(4) have ok: "snd (applyCommit r c) = None"
      by (simp add: runCommits_Cons del: runCommits.simps(2))
    then have "map_of (idempotencyKeys (fst (applyCommit r c))) (commitKey c) \<noteq> None"
      by (rule applyCommit_records_key)
    moreover have "j' < length cs" "commitKey (cs ! j') = commitKey c"
      using Cons.prems 0 j by auto
    ultimately have "snd (runCommits (fst (applyCommit r c)) cs) ! j' = Some ErrDuplicateIdempotencyKey"
      by (intro runCommits_known_key) auto
    with j show ?thesis by (simp add: runCommits_Cons del: runCommits.simps(2))
  next
    case (Suc i')
    with Cons.prems j have "snd (runCommits (fst (applyCommit r c)) cs) ! j' = Some ErrDuplicateIdempotencyKey"
      by (intro Cons.IH [of i' j']) (auto simp: runCommits_Cons simp del: runCommits.simps(2))
    with j show ?thesis by (simp add: runCommits_Cons del: runCommits.simps(2))
  qed
qed

text \<open>
  The checks and the inserts are the two halves of a commit.
\<close>

lemma applyCommit_split:
  "applyCommit r c =
     (case checkCommit r c of
        Some err \<Rightarrow> (r, Some err)
      | None \<Rightarrow> (insertCommit r c, None))"
  by (cases c) (simp_all add: checkCommit_def insertCommit_def SaveTransaction_def SaveAdjustment_def)

lemma runCommits_snoc:
  "runCommits r (cs @ [c]) =
     (fst (applyCommit (fst (runCommits r cs)) c),
      snd (runCommits r cs) @ [snd (applyCommit (fst (runCommits r cs)) c)])"
  by (induction cs arbitrary: r) (simp_all add: runCommits_Cons del: runCommits.simps(2))

lemma map_returnedError_update:
  assumes "sys_phase s' = (sys_phase s)[i := p]" and "\<forall>j \<in> set js. j \<noteq> i"
  shows "map (returnedError s') js = map (returnedError s) js"
  using assms by (induction js) (simp_all add: returnedError_def)

lemma logged_not_running:
  assumes "lockInvariant cs r0 s" and "\<forall>err. sys_phase s ! i \<noteq> Returned err"
  shows "\<forall>j \<in> set (sys_order s). j \<noteq> i"
  using assms by (auto simp: lockInvariant_def)

text \<open>
  Every step of every call keeps the invariant of the lock.
\<close>

lemma lockInvariantD:
  assumes "lockInvariant cs r0 s"
  shows "length (sys_phase s) = length cs"
    and "\<forall>i < length cs. sys_phase s ! i = Checking \<or> sys_phase s ! i = Inserting \<longrightarrow>
           sys_lock s = Some i"
    and "\<forall>i < length cs. sys_phase s ! i = Inserting \<longrightarrow> checkCommit (sys_repo s) (cs ! i) = None"
    and "\<forall>i \<in> set (sys_order s). i < length cs \<and> (\<exists>err. sys_phase s ! i = Returned err)"
    and "runCommits r0 (map ((!) cs) (sys_order s)) = (sys_repo s, map (returnedError s) (sys_order s))"
  using assms unfolding lockInvariant_def by blast+

lemma acquire_lockInvariant:
  assumes prems: "lockInvariant cs r0 s"
    and hyps: "i < length cs" "sys_phase s ! i = Waiting" "sys_lock s = None"
  shows "lockInvariant cs r0 (s\<lparr>sys_lock := Some i, sys_phase := (sys_phase s)[i := Checking]\<rparr>)"
proof -
  note inv = lockInvariantD [OF prems]
  have ib: "i < length (sys_phase s)"
    using hyps(1) inv(1) by simp
  let ?s' = "s\<lparr>sys_lock := Some i, sys_phase := (sys_phase s)[i := Checking]\<rparr>"
  have others: "\<forall>j \<in> set (sys_order s). j \<noteq> i"
    using prems hyps by (intro logged_not_running [of cs r0]) auto
  have outs: "map (returnedError ?s') (sys_order s) = map (returnedError s) (sys_order s)"
    using others by (intro map_returnedError_update [of _ _ i Checking]) simp_all
  have free: "\<forall>j < length cs. sys_phase s ! j \<noteq> Checking \<and> sys_phase s ! j \<noteq> Inserting"
    using inv(2) hyps(3) by fastforce
  show ?thesis
    unfolding lockInvariant_def
  proof (intro conjI)
    show "length (sys_phase ?s') = length cs"
      using inv(1) by simp
    show "\<forall>j<length cs. sys_phase ?s' ! j = Checking \<or> sys_phase ?s' ! j = Inserting \<longrightarrow>
            sys_lock ?s' = Some j"
      using free inv(1) ib by (auto simp: nth_list_update)
    show "\<forall>j<length cs. sys_phase ?s' ! j = Inserting \<longrightarrow> checkCommit (sys_repo ?s') (cs ! j) = None"
      using free inv(1) ib by (auto simp: nth_list_update)
    show "\<forall>j\<in>set (sys_order ?s'). j < length cs \<and> (\<exists>err. sys_phase ?s' ! j = Returned err)"
      using inv(4) others ib by (auto simp: nth_list_update)
    show "runCommits r0 (map ((!) cs) (sys_order ?s')) =
            (sys_repo ?s', map (returnedError ?s') (sys_order ?s'))"
      using inv(5) outs by simp
  qed
qed

lemma reject_lockInvariant:
  assumes prems: "lockInvariant cs r0 s"
    and hyps: "i < length cs" "sys_phase s ! i = Checking"
      "checkCommit (sys_repo s) (cs ! i) = Some err"
  shows "lockInvariant cs r0
           (s\<lparr>sys_lock := None, sys_phase := (sys_phase s)[i := Returned (Some err)],
              sys_order := sys_order s @ [i]\<rparr>)"
proof -
  note inv = lockInvariantD [OF prems]
  have ib: "i < length (sys_phase s)"
    using hyps(1) inv(1) by simp
  let ?s' = "s\<lparr>sys_lock := None, sys_phase := (sys_phase s)[i := Returned (Some err)],
               sys_order := sys_order s @ [i]\<rparr>"
  have others: "\<forall>j \<in> set (sys_order s). j \<noteq> i"
    using prems hyps by (intro logged_not_running [of cs r0]) auto
  have outs: "map (returnedError ?s') (sys_order s) = map (returnedError s) (sys_order s)"
    using others by (intro map_returnedError_update [of _ _ i "Returned (Some err)"]) simp_all
  have out: "returnedError ?s' i = Some err"
    using hyps(1) inv(1) by (simp add: returnedError_def)
  have holder: "sys_lock s = Some i"
    using inv(2) hyps by blast
  have alone: "\<forall>j < length cs. j \<noteq> i \<longrightarrow> sys_phase s ! j \<noteq> Checking \<and> sys_phase s ! j \<noteq> Inserting"
    using inv(2) holder by fastforce
  show ?thesis
    unfolding lockInvariant_def
  proof (intro conjI)
    show "length (sys_phase ?s') = length cs"
      using inv(1) by simp
    show "\<forall>j<length cs. sys_phase ?s' ! j = Checking \<or> sys_phase ?s' ! j = Inserting \<longrightarrow>
            sys_lock ?s' = Some j"
      using alone inv(1) ib by (auto simp: nth_list_update)
    show "\<forall>j<length cs. sys_phase ?s' ! j = Inserting \<longrightarrow> checkCommit (sys_repo ?s') (cs ! j) = None"
      using alone inv(1) ib by (auto simp: nth_list_update)
    show "\<forall>j\<in>set (sys_order ?s'). j < length cs \<and> (\<exists>err. sys_phase ?s' ! j = Returned err)"
      using inv(4) inv(1) others hyps(1) ib by (auto simp: nth_list_update)
    show "runCommits r0 (map ((!) cs) (sys_order ?s')) =
            (sys_repo ?s', map (returnedError ?s') (sys_order ?s'))"
      using hyps(3) by (simp add: runCommits_snoc inv(5) applyCommit_split outs out)
  qed
qed

lemma pass_lockInvariant:
  assumes prems: "lockInvariant cs r0 s"
    and hyps: "i < length cs" "sys_phase s ! i = Checking"
      "checkCommit (sys_repo s) (cs ! i) = None"
  shows "lockInvariant cs r0 (s\<lparr>sys_phase := (sys_phase s)[i := Inserting]\<rparr>)"
proof -
  note inv = lockInvariantD [OF prems]
  have ib: "i < length (sys_phase s)"
    using hyps(1) inv(1) by simp
  let ?s' = "s\<lparr>sys_phase := (sys_phase s)[i := Inserting]\<rparr>"
  have others: "\<forall>j \<in> set (sys_order s). j \<noteq> i"
    using prems hyps by (intro logged_not_running [of cs r0]) auto
  have outs: "map (returnedError ?s') (sys_order s) = map (returnedError s) (sys_order s)"
    using others by (intro map_returnedError_update [of _ _ i Inserting]) simp_all
  have holder: "sys_lock s = Some i"
    using inv(2) hyps by blast
  have alone: "\<forall>j < length cs. j \<noteq> i \<longrightarrow> sys_phase s ! j \<noteq> Checking \<and> sys_phase s ! j \<noteq> Inserting"
    using inv(2) holder by fastforce
  show ?thesis
    unfolding lockInvariant_def
  proof (intro conjI)
    show "length (sys_phase ?s') = length cs"
      using inv(1) by simp
    show "\<forall>j<length cs. sys_phase ?s' ! j = Checking \<or> sys_phase ?s' ! j = Inserting \<longrightarrow>
            sys_lock ?s' = Some j"
      using alone holder ib by (auto simp: nth_list_update)
    show "\<forall>j<length cs. sys_phase ?s' ! j = Inserting \<longrightarrow> checkCommit (sys_repo ?s') (cs ! j) = None"
      using alone hyps(3) ib by (auto simp: nth_list_update)
    show "\<forall>j\<in>set (sys_order ?s'). j < length cs \<and> (\<exists>err. sys_phase ?s' ! j = Returned err)"
      using inv(4) others ib by (auto simp: nth_list_update)
    show "runCommits r0 (map ((!) cs) (sys_order ?s')) =
            (sys_repo ?s', map (returnedError ?s') (sys_order ?s'))"
      using inv(5) outs by simp
  qed
qed

lemma insert_lockInvariant:
  assumes prems: "lockInvariant cs r0 s"
    and hyps: "i < length cs" "sys_phase s ! i = Inserting"
  shows "lockInvariant cs r0
           (s\<lparr>sys_repo := insertCommit (sys_repo s) (cs ! i), sys_lock := None,
              sys_phase := (sys_phase s)[i := Returned None],
              sys_order := sys_order s @ [i]\<rparr>)"
proof -
  note inv = lockInvariantD [OF prems]
  have ib: "i < length (sys_phase s)"
    using hyps(1) inv(1) by simp
  let ?s' = "s\<lparr>sys_repo := insertCommit (sys_repo s) (cs ! i), sys_lock := None,
               sys_phase := (sys_phase s)[i := Returned None],
               sys_order := sys_order s @ [i]\<rparr>"
  have others: "\<forall>j \<in> set (sys_order s). j \<noteq> i"
    using prems hyps by (intro logged_not_running [of cs r0]) auto
  have outs: "map (returnedError ?s') (sys_order s) = map (returnedError s) (sys_order s)"
    using others by (intro map_returnedError_update [of _ _ i "Returned None"]) simp_all
  have out: "returnedError ?s' i = None"
    using hyps(1) inv(1) by (simp add: returnedError_def)
  have holder: "sys_lock s = Some i"
    using inv(2) hyps by blast
  have alone: "\<forall>j < length cs. j \<noteq> i \<longrightarrow> sys_phase s ! j \<noteq> Checking \<and> sys_phase s ! j \<noteq> Inserting"
    using inv(2) holder by fastforce
  have passed: "checkCommit (sys_repo s) (cs ! i) = None"
    using inv(3) hyps by blast
  show ?thesis
    unfolding lockInvariant_def
  proof (intro conjI)
    show "length (sys_phase ?s') = length cs"
      using inv(1) by simp
    show "\<forall>j<length cs. sys_phase ?s' ! j = Checking \<or> sys_phase ?s' ! j = Inserting \<longrightarrow>
            sys_lock ?s' = Some j"
      using alone inv(1) ib by (auto simp: nth_list_update)
    show "\<forall>j<length cs. sys_phase ?s' ! j = Inserting \<longrightarrow> checkCommit (sys_repo ?s') (cs ! j) = None"
      using alone inv(1) ib by (auto simp: nth_list_update)
    show "\<forall>j\<in>set (sys_order ?s'). j < length cs \<and> (\<exists>err. sys_phase ?s' ! j = Returned err)"
      using inv(4) inv(1) others hyps(1) ib by (auto simp: nth_list_update)
    show "runCommits r0 (map ((!) cs) (sys_order ?s')) =
            (sys_repo ?s', map (returnedError ?s') (sys_order ?s'))"
      using passed by (simp add: runCommits_snoc inv(5) applyCommit_split outs out)
  qed
qed

lemma stepCall_lockInvariant:
  assumes "lockInvariant cs r0 s"
  shows "lockInvariant cs r0 (stepCall cs s i)"
proof (cases "length cs \<le> i")
  case True
  with assms show ?thesis by (simp add: stepCall_def)
next
  case False
  then have i: "i < length cs" by simp
  show ?thesis
  proof (cases "sys_phase s ! i")
    case Waiting
    with assms i show ?thesis
      by (simp add: stepCall_def acquire_lockInvariant)
  next
    case Checking
    with assms i show ?thesis
      by (cases "checkCommit (sys_repo s) (cs ! i)")
         (simp_all add: stepCall_def reject_lockInvariant pass_lockInvariant)
  next
    case Inserting
    with assms i show ?thesis
      by (simp add: stepCall_def insert_lockInvariant)
  next
    case (Returned err)
    with assms i show ?thesis
      by (simp add: stepCall_def)
  qed
qed

lemma initial_lockInvariant: "lockInvariant cs r0 (initial r0 cs)"
  by (simp add: lockInvariant_def initial_def)

lemma runSchedule_lockInvariant:
  "lockInvariant cs r0 s \<Longrightarrow> lockInvariant cs r0 (runSchedule cs s schedule)"
  unfolding runSchedule_def
  by (induction schedule arbitrary: s) (simp_all add: stepCall_lockInvariant)

text \<open>
  Whatever the schedule, the concurrent calls leave the repository and return the errors
  of the sequential run of the returned calls in the order of their returns, and at most
  one call is between \<^verbatim>\<open>Lock\<close> and \<^verbatim>\<open>Unlock\<close>.
\<close>

lemma locked_commits_are_a_sequence:
  "runCommits r0 (map ((!) cs) (sys_order (runSchedule cs (initial r0 cs) schedule))) =
     (sys_repo (runSchedule cs (initial r0 cs) schedule),
      map (returnedError (runSchedule cs (initial r0 cs) schedule))
        (sys_order (runSchedule cs (initial r0 cs) schedule)))"
  using runSchedule_lockInvariant [OF initial_lockInvariant, of cs r0 schedule]
  by (simp add: lockInvariant_def)

lemma one_call_in_the_critical_section:
  assumes "s = runSchedule cs (initial r0 cs) schedule" and "i < length cs" and "j < length cs"
    and "sys_phase s ! i = Checking \<or> sys_phase s ! i = Inserting"
    and "sys_phase s ! j = Checking \<or> sys_phase s ! j = Inserting"
  shows "i = j"
proof -
  have inv: "lockInvariant cs r0 s"
    unfolding assms(1) by (intro runSchedule_lockInvariant initial_lockInvariant)
  have "sys_lock s = Some i"
    using inv assms(2,4) unfolding lockInvariant_def by blast
  moreover have "sys_lock s = Some j"
    using inv assms(3,5) unfolding lockInvariant_def by blast
  ultimately show ?thesis by simp
qed

text \<open>
  Claim C7. In every sequence of commits, from every repository, once a commit has succeeded
  each later commit with the same idempotency key fails with \<open>ErrDuplicateIdempotencyKey\<close>;
  so at most one commit for a key ever succeeds. The same holds for concurrent calls under
  every schedule: when a call has returned without error, each call with the same key that
  returns after it returns \<open>ErrDuplicateIdempotencyKey\<close>. The check of the loser runs after
  the insert of the winner, because the check and the insert of a call are made under one
  holding of the lock.
\<close>

theorem one_winner_per_key:
  "(i < j \<and> j < length cs \<and> commitKey (cs ! i) = commitKey (cs ! j) \<and>
    snd (runCommits r cs) ! i = None \<longrightarrow>
      snd (runCommits r cs) ! j = Some ErrDuplicateIdempotencyKey) \<and>
   (s = runSchedule cs (initial r cs) schedule \<and> m < n \<and> n < length (sys_order s) \<and>
    commitKey (cs ! (sys_order s ! m)) = commitKey (cs ! (sys_order s ! n)) \<and>
    returnedError s (sys_order s ! m) = None \<longrightarrow>
      returnedError s (sys_order s ! n) = Some ErrDuplicateIdempotencyKey)"
proof (intro conjI impI)
  assume "i < j \<and> j < length cs \<and> commitKey (cs ! i) = commitKey (cs ! j) \<and>
    snd (runCommits r cs) ! i = None"
  then show "snd (runCommits r cs) ! j = Some ErrDuplicateIdempotencyKey"
    by (intro runCommits_later_key [of i j]) simp_all
next
  assume a: "s = runSchedule cs (initial r cs) schedule \<and> m < n \<and> n < length (sys_order s) \<and>
    commitKey (cs ! (sys_order s ! m)) = commitKey (cs ! (sys_order s ! n)) \<and>
    returnedError s (sys_order s ! m) = None"
  then have s: "s = runSchedule cs (initial r cs) schedule"
    and mn: "m < n" and n: "n < length (sys_order s)"
    and key: "commitKey (cs ! (sys_order s ! m)) = commitKey (cs ! (sys_order s ! n))"
    and won: "returnedError s (sys_order s ! m) = None"
    by blast+
  let ?ops = "map ((!) cs) (sys_order s)"
  have outs: "snd (runCommits r ?ops) = map (returnedError s) (sys_order s)"
    unfolding s by (simp add: locked_commits_are_a_sequence)
  have "snd (runCommits r ?ops) ! n = Some ErrDuplicateIdempotencyKey"
  proof (rule runCommits_later_key [of m n])
    show "m < n" by (rule mn)
    show "n < length ?ops" using n by simp
    show "commitKey (?ops ! m) = commitKey (?ops ! n)" using key mn n by simp
    show "snd (runCommits r ?ops) ! m = None" using won mn n by (simp add: outs)
  qed
  then show "returnedError s (sys_order s ! n) = Some ErrDuplicateIdempotencyKey"
    using n by (simp add: outs)
qed

text \<open>
  The theorem on two purchases under \<open>idem1\<close> and two refunds under \<open>idem2\<close> in a
  sequence, and on two concurrent purchases under \<open>idem1\<close> where call 1 gets the lock first
  and call 0 waits: call 1 is committed and call 0 gets \<open>ErrDuplicateIdempotencyKey\<close>.
\<close>

theorem one_winner_per_key_witness:
  "snd (runCommits NewRepository
          [CommitTransaction (makePurchase ''tx1'' StatusApproved ''idem1'' 1000 ''BRL''),
           CommitAdjustment (makeAdjustment ''adj1'' StatusApproved ''tx1'' ''idem2'' 500 ''BRL''),
           CommitTransaction (makePurchase ''tx2'' StatusApproved ''idem1'' 2000 ''BRL''),
           CommitAdjustment (makeAdjustment ''adj2'' StatusApproved ''tx1'' ''idem2'' 100 ''BRL'')])
     = [None, None, Some ErrDuplicateIdempotencyKey, Some ErrDuplicateIdempotencyKey] \<and>
   sys_order (runSchedule
      [CommitTransaction (makePurchase ''tx1'' StatusApproved ''idem1'' 1000 ''BRL''),
       CommitTransaction (makePurchase ''tx2'' StatusApproved ''idem1'' 2000 ''BRL'')]
      (initial NewRepository
         [CommitTransaction (makePurchase ''tx1'' StatusApproved ''idem1'' 1000 ''BRL''),
          CommitTransaction (makePurchase ''tx2'' StatusApproved ''idem1'' 2000 ''BRL'')])
      [Suc 0, 0, Suc 0, 0, Suc 0, 0, 0]) = [Suc 0, 0] \<and>
   sys_phase (runSchedule
      [CommitTransaction (makePurchase ''tx1'' StatusApproved ''idem1'' 1000 ''BRL''),
       CommitTransaction (makePurchase ''tx2'' StatusApproved ''idem1'' 2000 ''BRL'')]
      (initial NewRepository
         [CommitTransaction (makePurchase ''tx1'' StatusApproved ''idem1'' 1000 ''BRL''),
          CommitTransaction (makePurchase ''tx2'' StatusApproved ''idem1'' 2000 ''BRL'')])
      [Suc 0, 0, Suc 0, 0, Suc 0, 0, 0]) = [Returned (Some ErrDuplicateIdempotencyKey), Returned None]"
proof -
  let ?p = "makePurchase ''tx1'' StatusApproved ''idem1'' 1000 ''BRL''"
  let ?q = "makePurchase ''tx2'' StatusApproved ''idem1'' 2000 ''BRL''"
  let ?cs = "[CommitTransaction ?p,
           CommitAdjustment (makeAdjustment ''adj1'' StatusApproved ''tx1'' ''idem2'' 500 ''BRL''),
           CommitTransaction ?q,
           CommitAdjustment (makeAdjustment ''adj2'' StatusApproved ''tx1'' ''idem2'' 100 ''BRL'')]"
  have first: "applyCommit NewRepository (?cs ! 0) =
      (\<lparr>transactions = [(''tx1'', ?p)], adjustments = [], idempotencyKeys = [(''idem1'', ''tx1'')]\<rparr>, None)"
    by (simp add: SaveTransaction_def NewRepository_def makePurchase_def makeEvent_def)
  have second: "applyCommit \<lparr>transactions = [(''tx1'', ?p)],
        adjustments = [], idempotencyKeys = [(''idem1'', ''tx1'')]\<rparr> (?cs ! 1) =
      (\<lparr>transactions = [(''tx1'', ?p)],
        adjustments = [(''tx1'', [makeAdjustment ''adj1'' StatusApproved ''tx1'' ''idem2'' 500 ''BRL''])],
        idempotencyKeys = [(''idem1'', ''tx1''), (''idem2'', ''adj1'')]\<rparr>, None)"
    by (simp add: SaveAdjustment_def adjustmentsOf_def makeAdjustment_def makeEvent_def)
  have len: "length (snd (runCommits NewRepository ?cs)) = 4"
    by (simp add: length_runCommits del: runCommits.simps)
  have o0: "snd (runCommits NewRepository ?cs) ! 0 = None"
    using first by (simp add: runCommits_Cons del: runCommits.simps(2))
  have o1: "snd (runCommits NewRepository ?cs) ! 1 = None"
    using first second by (simp add: runCommits_Cons del: runCommits.simps(2))
  have k02: "commitKey (?cs ! 0) = commitKey (?cs ! 2)" and k13: "commitKey (?cs ! 1) = commitKey (?cs ! 3)"
    by (simp_all add: makePurchase_def makeAdjustment_def makeEvent_def numeral_3_eq_3)
  have o2: "snd (runCommits NewRepository ?cs) ! 2 = Some ErrDuplicateIdempotencyKey"
    using one_winner_per_key [where i = 0 and j = 2 and cs = ?cs and r = NewRepository] k02 o0
    by (simp del: runCommits.simps)
  have o3: "snd (runCommits NewRepository ?cs) ! 3 = Some ErrDuplicateIdempotencyKey"
    using one_winner_per_key [where i = 1 and j = 3 and cs = ?cs and r = NewRepository] k13 o1
    by (simp del: runCommits.simps)
  have seq: "snd (runCommits NewRepository ?cs)
               = [None, None, Some ErrDuplicateIdempotencyKey, Some ErrDuplicateIdempotencyKey]"
    using len o0 o1 o2 o3
    by (auto simp: list_eq_iff_nth_eq less_Suc_eq numeral_eq_Suc simp del: runCommits.simps)
  let ?ds = "[CommitTransaction ?p, CommitTransaction ?q]"
  let ?s = "runSchedule ?ds (initial NewRepository ?ds) [Suc 0, 0, Suc 0, 0, Suc 0, 0, 0]"
  have ord: "sys_order ?s = [Suc 0, 0]"
    and ph1: "sys_phase ?s ! Suc 0 = Returned None"
    and ph0: "\<exists>err. sys_phase ?s = [Returned err, Returned None]"
    by (simp_all add: runSchedule_def initial_def stepCall_def checkCommit_def insertCommit_def
          NewRepository_def makePurchase_def makeEvent_def)
  have keys: "commitKey (?ds ! (sys_order ?s ! 0)) = commitKey (?ds ! (sys_order ?s ! Suc 0))"
    unfolding ord by (simp add: makePurchase_def makeEvent_def)
  have won: "returnedError ?s (sys_order ?s ! 0) = None"
    unfolding ord using ph1 by (simp add: returnedError_def)
  have two: "0 < Suc 0" "Suc 0 < length (sys_order ?s)"
    unfolding ord by simp_all
  have "returnedError ?s (sys_order ?s ! Suc 0) = Some ErrDuplicateIdempotencyKey"
    using one_winner_per_key [where s = ?s and cs = ?ds and r = NewRepository
        and schedule = "[Suc 0, 0, Suc 0, 0, Suc 0, 0, 0]" and m = 0 and n = "Suc 0", THEN conjunct2]
      two keys won
    by blast
  then have "returnedError ?s 0 = Some ErrDuplicateIdempotencyKey"
    unfolding ord by simp
  moreover obtain err where "sys_phase ?s = [Returned err, Returned None]"
    using ph0 by blast
  ultimately have lost: "sys_phase ?s = [Returned (Some ErrDuplicateIdempotencyKey), Returned None]"
    by (simp add: returnedError_def)
  show ?thesis
    using seq ord lost by (intro conjI)
qed

subsection \<open>Replay of a purchase\<close>

lemma update_absent: "map_of al k = None \<Longrightarrow> AList.update k v al = al @ [(k, v)]"
  by (induction al) (auto split: if_splits)

lemma SaveTransaction_indexed:
  "transactionsIndexed r \<Longrightarrow> transactionsIndexed (fst (SaveTransaction r tx))"
  by (auto simp: SaveTransaction_def transactionsIndexed_def ListTransactions_def update_absent
        map_of_eq_None_iff)

lemma SaveAdjustment_transactions:
  "transactions (fst (SaveAdjustment r adj)) = transactions r"
  by (simp add: SaveAdjustment_def)

lemma SaveTransaction_keeps_keys:
  "map_of (idempotencyKeys r) k \<noteq> None \<Longrightarrow>
   map_of (idempotencyKeys (fst (SaveTransaction r tx))) k \<noteq> None"
  by (auto simp: SaveTransaction_def update_conv)

lemma SaveAdjustment_keeps_keys:
  "map_of (idempotencyKeys r) k \<noteq> None \<Longrightarrow>
   map_of (idempotencyKeys (fst (SaveAdjustment r adj))) k \<noteq> None"
  by (auto simp: SaveAdjustment_def update_conv)

lemma SaveTransaction_keeps_transactions:
  "map_of (transactions r) k \<noteq> None \<Longrightarrow>
   map_of (transactions (fst (SaveTransaction r tx))) k \<noteq> None"
  by (auto simp: SaveTransaction_def update_conv)

text \<open>An event either leaves the ledger as it is or ends in one save.\<close>

lemma processPurchase_step:
  "fst (processPurchase r cmd) = r \<or> (\<exists>tx. fst (processPurchase r cmd) = fst (SaveTransaction r tx))"
  by (auto simp: processPurchase_def split: sum.splits prod.splits option.splits)
     (metis fst_conv)+

lemma processAdjustment_step:
  "fst (processAdjustment r cmd) = r \<or> (\<exists>adj. fst (processAdjustment r cmd) = fst (SaveAdjustment r adj))"
  by (auto simp: processAdjustment_def split: sum.splits prod.splits option.splits)
     (metis fst_conv)+

lemma ProcessTransaction_step:
  "fst (ProcessTransaction r cmd) = r \<or>
   (\<exists>tx. fst (ProcessTransaction r cmd) = fst (SaveTransaction r tx)) \<or>
   (\<exists>adj. fst (ProcessTransaction r cmd) = fst (SaveAdjustment r adj))"
  using processPurchase_step [of r cmd] processAdjustment_step [of r cmd]
  by (auto simp: ProcessTransaction_def)

lemma ProcessTransaction_indexed:
  "transactionsIndexed r \<Longrightarrow> transactionsIndexed (fst (ProcessTransaction r cmd))"
  using ProcessTransaction_step [of r cmd]
  by (auto simp: SaveTransaction_indexed)
     (simp add: transactionsIndexed_def ListTransactions_def SaveAdjustment_transactions)

lemma ProcessTransaction_keeps_keys:
  "map_of (idempotencyKeys r) k \<noteq> None \<Longrightarrow>
   map_of (idempotencyKeys (fst (ProcessTransaction r cmd))) k \<noteq> None"
  by (metis ProcessTransaction_step SaveTransaction_keeps_keys SaveAdjustment_keeps_keys)

lemma ProcessTransaction_keeps_transactions:
  "map_of (transactions r) k \<noteq> None \<Longrightarrow>
   map_of (transactions (fst (ProcessTransaction r cmd))) k \<noteq> None"
  by (metis ProcessTransaction_step SaveTransaction_keeps_transactions SaveAdjustment_transactions)

lemma runCommands_Cons: "runCommands r (cmd # cmds) = runCommands (fst (ProcessTransaction r cmd)) cmds"
  by (simp add: runCommands_def)

lemma runCommands_Nil: "runCommands r [] = r"
  by (simp add: runCommands_def)

lemma runCommands_indexed:
  "transactionsIndexed r \<Longrightarrow> transactionsIndexed (runCommands r cmds)"
  by (induction cmds arbitrary: r) (simp_all add: runCommands_Nil runCommands_Cons ProcessTransaction_indexed)

lemma runCommands_keeps_keys:
  "map_of (idempotencyKeys r) k \<noteq> None \<Longrightarrow> map_of (idempotencyKeys (runCommands r cmds)) k \<noteq> None"
proof (induction cmds arbitrary: r)
  case Nil
  then show ?case by (simp add: runCommands_Nil)
next
  case (Cons cmd cmds)
  show ?case
    unfolding runCommands_Cons
    by (rule Cons.IH) (rule ProcessTransaction_keeps_keys [OF Cons.prems])
qed

lemma runCommands_keeps_transactions:
  "map_of (transactions r) k \<noteq> None \<Longrightarrow> map_of (transactions (runCommands r cmds)) k \<noteq> None"
proof (induction cmds arbitrary: r)
  case Nil
  then show ?case by (simp add: runCommands_Nil)
next
  case (Cons cmd cmds)
  show ?case
    unfolding runCommands_Cons
    by (rule Cons.IH) (rule ProcessTransaction_keeps_transactions [OF Cons.prems])
qed

lemma NewRepository_indexed: "transactionsIndexed NewRepository"
  by (simp add: transactionsIndexed_def NewRepository_def ListTransactions_def)

lemma distinct_count_one: "distinct ks \<Longrightarrow> k \<in> set ks \<Longrightarrow> length (filter (\<lambda>x. x = k) ks) = 1"
  by (induction ks) (auto simp: filter_empty_conv)

lemma indexed_listed_once:
  assumes "transactionsIndexed r" and "map_of (transactions r) k \<noteq> None"
  shows "length (filter (\<lambda>t. tx_ID t = k) (ListTransactions r)) = 1"
proof -
  have "k \<in> set (map fst (transactions r))"
    using assms(2) by (simp add: map_of_eq_None_iff)
  moreover have "distinct (map fst (transactions r))"
    and ids: "map fst (transactions r) = map tx_ID (ListTransactions r)"
    using assms(1) by (simp_all add: transactionsIndexed_def)
  ultimately have "length (filter (\<lambda>x. x = k) (map fst (transactions r))) = 1"
    by (intro distinct_count_one)
  then have "length (filter (\<lambda>x. x = k) (map tx_ID (ListTransactions r))) = 1"
    by (simp only: ids)
  then show ?thesis
    by (simp only: filter_map length_map comp_def)
qed

lemma processPurchase_success:
  assumes "processPurchase r cmd = (r1, res1, None)"
  shows "res1 = \<lparr>res_TransactionID = cmd_TransactionID cmd, res_Idempotent = False\<rparr> \<and>
         map_of (idempotencyKeys r1) (cmd_IdempotencyKey cmd) \<noteq> None \<and>
         map_of (transactions r1) (cmd_TransactionID cmd) \<noteq> None"
  using assms
  by (auto simp: processPurchase_def NewPurchase_def SaveTransaction_def eventOf_def update_conv
        split: sum.splits prod.splits option.splits if_splits)

lemma processPurchase_replay:
  "map_of (idempotencyKeys r) (cmd_IdempotencyKey cmd) \<noteq> None \<Longrightarrow>
   processPurchase r cmd =
     (r, \<lparr>res_TransactionID = cmd_TransactionID cmd, res_Idempotent = True\<rparr>, Some ErrDuplicateIdempotencyKey)"
  by (simp add: processPurchase_def GetByIdempotencyKey_def)

text \<open>
  Claim C3. In a ledger reached from the empty one by any events, when a purchase event is
  processed without error its result carries the transaction id and \<open>Idempotent = False\<close>.
  When the same event is submitted again, at once or after any other events, the result
  carries the transaction id and \<open>Idempotent = True\<close> together with the error
  \<open>ErrDuplicateIdempotencyKey\<close>, the ledger is not changed by it, and \<open>ListTransactions\<close>
  has exactly one entry with that transaction id and no two entries with the same id.
\<close>

theorem purchase_replay:
  assumes "cmd_TransactionType cmd = TypePurchase"
    and "ProcessTransaction (runCommands NewRepository before) cmd = (r1, res1, None)"
  shows "res1 = \<lparr>res_TransactionID = cmd_TransactionID cmd, res_Idempotent = False\<rparr> \<and>
         ProcessTransaction (runCommands r1 between) cmd =
           (runCommands r1 between,
            \<lparr>res_TransactionID = cmd_TransactionID cmd, res_Idempotent = True\<rparr>,
            Some ErrDuplicateIdempotencyKey) \<and>
         length (filter (\<lambda>t. tx_ID t = cmd_TransactionID cmd)
                   (ListTransactions (runCommands r1 between))) = 1 \<and>
         distinct (map tx_ID (ListTransactions (runCommands r1 between)))"
proof -
  let ?r = "runCommands NewRepository before"
  let ?r2 = "runCommands r1 between"
  have first: "processPurchase ?r cmd = (r1, res1, None)"
    using assms by (simp add: ProcessTransaction_def)
  note s = processPurchase_success [OF first]
  have r1: "r1 = fst (ProcessTransaction ?r cmd)"
    using assms(2) by simp
  have "transactionsIndexed r1"
    unfolding r1 by (intro ProcessTransaction_indexed runCommands_indexed NewRepository_indexed)
  then have idx: "transactionsIndexed ?r2"
    by (rule runCommands_indexed)
  have key: "map_of (idempotencyKeys ?r2) (cmd_IdempotencyKey cmd) \<noteq> None"
    using s by (intro runCommands_keeps_keys) simp
  have tx: "map_of (transactions ?r2) (cmd_TransactionID cmd) \<noteq> None"
    using s by (intro runCommands_keeps_transactions) simp
  have "ProcessTransaction ?r2 cmd =
          (?r2, \<lparr>res_TransactionID = cmd_TransactionID cmd, res_Idempotent = True\<rparr>,
           Some ErrDuplicateIdempotencyKey)"
    using assms(1) key by (simp add: ProcessTransaction_def processPurchase_replay)
  moreover have "distinct (map tx_ID (ListTransactions ?r2))"
    using idx by (simp add: transactionsIndexed_def)
  ultimately show ?thesis
    using s indexed_listed_once [OF idx tx] by simp
qed

text \<open>
  The theorem on \<^verbatim>\<open>TestProcessDuplicateIdempotencyKey\<close>, with the purchase \<open>tx2\<close> between
  the two submissions of \<open>tx1\<close>.
\<close>

theorem purchase_replay_witness:
  "snd (ProcessTransaction NewRepository (makePurchaseCmd ''tx1'' ''APPROVED'' ''idem1'' 1000))
     = (\<lparr>res_TransactionID = ''tx1'', res_Idempotent = False\<rparr>, None) \<and>
   snd (ProcessTransaction
          (runCommands NewRepository
             [makePurchaseCmd ''tx1'' ''APPROVED'' ''idem1'' 1000,
              makePurchaseCmd ''tx2'' ''APPROVED'' ''idem2'' 2000])
          (makePurchaseCmd ''tx1'' ''APPROVED'' ''idem1'' 1000))
     = (\<lparr>res_TransactionID = ''tx1'', res_Idempotent = True\<rparr>, Some ErrDuplicateIdempotencyKey) \<and>
   length (filter (\<lambda>t. tx_ID t = ''tx1'')
             (ListTransactions
                (runCommands NewRepository
                   [makePurchaseCmd ''tx1'' ''APPROVED'' ''idem1'' 1000,
                    makePurchaseCmd ''tx2'' ''APPROVED'' ''idem2'' 2000]))) = 1"
proof -
  let ?c = "makePurchaseCmd ''tx1'' ''APPROVED'' ''idem1'' 1000"
  let ?d = "makePurchaseCmd ''tx2'' ''APPROVED'' ''idem2'' 2000"
  let ?r1 = "fst (ProcessTransaction NewRepository ?c)"
  have ty: "cmd_TransactionType ?c = TypePurchase"
    by (simp add: makePurchaseCmd_def TypePurchase_def)
  have ok: "snd (snd (ProcessTransaction NewRepository ?c)) = None"
    by (simp add: service_defs makePurchaseCmd_def)
  have first: "ProcessTransaction (runCommands NewRepository []) ?c
                 = (?r1, fst (snd (ProcessTransaction NewRepository ?c)), None)"
    using ok by (simp add: runCommands_Nil prod_eq_iff)
  have run: "runCommands NewRepository [?c, ?d] = runCommands ?r1 [?d]"
    by (simp add: runCommands_Cons)
  have tid: "cmd_TransactionID ?c = ''tx1''"
    by (simp add: makePurchaseCmd_def)
  show ?thesis
    using purchase_replay [OF ty first, of "[?d]", unfolded tid] ok
    by (simp add: run prod_eq_iff)
qed

subsection \<open>The refund budget\<close>

text \<open>
  Claim C1 says that the approved adjustments of a purchase never add up to more than its
  local amount. \<open>Money_Add\<close> adds two \<^verbatim>\<open>int64\<close> without a check, so the running total can
  wrap around. After an approved purchase of 10000 and an approved refund of 1, an approved
  refund of 9223372036854775807 gives the total \<open>1 + 9223372036854775807\<close>, which is
  \<open>-9223372036854775808\<close> in 64 bits and not greater than 10000: the three events are
  processed without error, and the approved refunds of \<open>tx1\<close> then add up to
  9223372036854775808, far above the 10000 of the purchase.
\<close>

theorem budget_overflow_run:
  "snd (ProcessTransaction NewRepository (makePurchaseCmd ''tx1'' ''APPROVED'' ''idem1'' 10000))
     = (\<lparr>res_TransactionID = ''tx1'', res_Idempotent = False\<rparr>, None) \<and>
   snd (ProcessTransaction
          (runCommands NewRepository [makePurchaseCmd ''tx1'' ''APPROVED'' ''idem1'' 10000])
          (makeAdjustCmd ''adj1'' ''REFUND'' ''APPROVED'' ''tx1'' ''idem-adj1'' 1))
     = (\<lparr>res_TransactionID = ''adj1'', res_Idempotent = False\<rparr>, None) \<and>
   snd (ProcessTransaction
          (runCommands NewRepository
             [makePurchaseCmd ''tx1'' ''APPROVED'' ''idem1'' 10000,
              makeAdjustCmd ''adj1'' ''REFUND'' ''APPROVED'' ''tx1'' ''idem-adj1'' 1])
          (makeAdjustCmd ''adj2'' ''REFUND'' ''APPROVED'' ''tx1'' ''idem-adj2'' 9223372036854775807))
     = (\<lparr>res_TransactionID = ''adj2'', res_Idempotent = False\<rparr>, None) \<and>
   map (\<lambda>t. (tx_ID t, sint (Amount (Local (tx_Amount t)))))
     (ListTransactions
        (runCommands NewRepository
           [makePurchaseCmd ''tx1'' ''APPROVED'' ''idem1'' 10000,
            makeAdjustCmd ''adj1'' ''REFUND'' ''APPROVED'' ''tx1'' ''idem-adj1'' 1,
            makeAdjustCmd ''adj2'' ''REFUND'' ''APPROVED'' ''tx1'' ''idem-adj2'' 9223372036854775807]))
     = [(''tx1'', 10000)] \<and>
   approvedTotal
     (adjustmentsOf
        (runCommands NewRepository
           [makePurchaseCmd ''tx1'' ''APPROVED'' ''idem1'' 10000,
            makeAdjustCmd ''adj1'' ''REFUND'' ''APPROVED'' ''tx1'' ''idem-adj1'' 1,
            makeAdjustCmd ''adj2'' ''REFUND'' ''APPROVED'' ''tx1'' ''idem-adj2'' 9223372036854775807])
        ''tx1'')
     = 9223372036854775808"
  by (simp add: runCommands_def service_defs makePurchaseCmd_def makeAdjustCmd_def
        approvedTotal_def ListTransactions_def)

text \<open>
  Overflow is the only way past the budget. When no event carries a local amount above
  \<open>2 ^ 62\<close>, no sum of the running total and an amount leaves the \<^verbatim>\<open>int64\<close> range, and
  the approved adjustments of every purchase of a reachable ledger add up to at most its
  local amount.
\<close>

lemma approvedTotal_Nil: "approvedTotal [] = 0"
  by (simp add: approvedTotal_def)

lemma approvedTotal_Cons:
  "approvedTotal (a # adjs) =
     (if adj_Status a = StatusApproved then sint (Amount (Local (adj_Amount a))) else 0)
     + approvedTotal adjs"
  by (simp add: approvedTotal_def)

lemma approvedTotal_append:
  "approvedTotal (adjs @ [a]) =
     approvedTotal adjs
     + (if adj_Status a = StatusApproved then sint (Amount (Local (adj_Amount a))) else 0)"
  by (simp add: approvedTotal_def)

lemma approvedTotal_nonneg:
  "\<forall>a \<in> set adjs. adj_Status a = StatusApproved \<longrightarrow> 0 \<le> sint (Amount (Local (adj_Amount a)))
   \<Longrightarrow> 0 \<le> approvedTotal adjs"
  by (induction adjs) (auto simp: approvedTotal_Nil approvedTotal_Cons)

lemma sumLoop_total:
  assumes "sumLoop t0 adjs = Inr t"
    and "\<forall>a \<in> set adjs. adj_Status a = StatusApproved \<longrightarrow> 0 \<le> sint (Amount (Local (adj_Amount a)))"
    and "0 \<le> sint (Amount t0)"
    and "sint (Amount t0) + approvedTotal adjs < 2 ^ 63"
  shows "sint (Amount t) = sint (Amount t0) + approvedTotal adjs \<and> Currency t = Currency t0"
  using assms
proof (induction adjs arbitrary: t0)
  case Nil
  then show ?case by (simp add: approvedTotal_Nil)
next
  case (Cons a adjs)
  show ?case
  proof (cases "adj_Status a = StatusApproved")
    case False
    with Cons.prems have "sumLoop t0 adjs = Inr t" by simp
    with Cons.prems False show ?thesis
      using Cons.IH [of t0] by (simp add: approvedTotal_Cons)
  next
    case True
    let ?x = "Local (adj_Amount a)"
    let ?t1 = "\<lparr>Amount = Amount t0 + Amount ?x, Currency = Currency t0\<rparr>"
    have cur: "Currency t0 = Currency ?x" and rest: "sumLoop ?t1 adjs = Inr t"
      using Cons.prems(1) True by (auto simp: Money_Add_def split: if_splits)
    have x0: "0 \<le> sint (Amount ?x)"
      using Cons.prems(2) True by simp
    have tail0: "0 \<le> approvedTotal adjs"
      using Cons.prems(2) by (intro approvedTotal_nonneg) simp
    have bound: "sint (Amount t0) + sint (Amount ?x) + approvedTotal adjs < 2 ^ 63"
      using Cons.prems(4) True by (simp add: approvedTotal_Cons)
    have add: "sint (Amount t0 + Amount ?x) = sint (Amount t0) + sint (Amount ?x)"
      using Cons.prems(3) x0 tail0 bound by (intro sint_add_no_overflow) auto
    have "sint (Amount t) = sint (Amount ?t1) + approvedTotal adjs \<and> Currency t = Currency ?t1"
      using rest Cons.prems(2) Cons.prems(3) x0 bound add by (intro Cons.IH) auto
    with add True show ?thesis
      by (simp add: approvedTotal_Cons)
  qed
qed


lemma processPurchase_commit:
  "fst (processPurchase r cmd) = r \<or>
   (\<exists>tx keys. fst (processPurchase r cmd) =
        r\<lparr>idempotencyKeys := keys, transactions := AList.update (tx_ID tx) tx (transactions r)\<rparr> \<and>
      map_of (transactions r) (tx_ID tx) = None \<and>
      100 \<le> sint (Amount (Local (tx_Amount tx))) \<and>
      sint (Amount (Local (tx_Amount tx))) \<le> 500000)"
proof (cases "fst (processPurchase r cmd) = r")
  case True
  then show ?thesis by simp
next
  case False
  then obtain amount tx where
    new: "NewPurchase (cmd_TransactionID cmd) (cmd_TransactionStatus cmd) amount
             (merchantOf cmd) (eventOf cmd) (cmd_UserID cmd) (cmd_CardID cmd)
             (cmd_Country cmd) (cmd_Currency cmd) (cmd_PointOfSale cmd) = Inr tx"
    and save: "fst (processPurchase r cmd) = fst (SaveTransaction r tx)"
    by (auto simp: processPurchase_def split: sum.splits if_splits option.splits prod.splits)
  have le: "100 \<le> sint (Amount (Local (tx_Amount tx))) \<and>
            sint (Amount (Local (tx_Amount tx))) \<le> 500000"
    using new
    by (auto simp: NewPurchase_def MinPurchaseAmount_def MaxPurchaseAmount_def word_sless_alt
          split: if_splits)
  have "fst (SaveTransaction r tx) \<noteq> r"
    using False save by simp
  then have "fst (SaveTransaction r tx) =
        r\<lparr>idempotencyKeys :=
            AList.update (ev_IdempotencyKey (tx_Event tx)) (tx_ID tx) (idempotencyKeys r),
          transactions := AList.update (tx_ID tx) tx (transactions r)\<rparr> \<and>
      map_of (transactions r) (tx_ID tx) = None"
    by (auto simp: SaveTransaction_def split: if_splits)
  with save le show ?thesis
    by (intro disjI2 exI [of _ tx]
          exI [of _ "AList.update (ev_IdempotencyKey (tx_Event tx)) (tx_ID tx) (idempotencyKeys r)"])
       simp
qed

lemma processAdjustment_commit:
  "fst (processAdjustment r cmd) = r \<or>
   (\<exists>adj original existingTotal keys.
      fst (processAdjustment r cmd) =
        r\<lparr>idempotencyKeys := keys,
          adjustments := AList.update (adj_OriginalTransactionID adj)
            (adjustmentsOf r (adj_OriginalTransactionID adj) @ [adj]) (adjustments r)\<rparr> \<and>
      map_of (transactions r) (adj_OriginalTransactionID adj) = Some original \<and>
      Amount (Local (adj_Amount adj)) = cmd_LocalAmount cmd \<and>
      0 \<le> sint (cmd_LocalAmount cmd) \<and>
      sumLoop \<lparr>Amount = 0, Currency = cmd_LocalCurrency cmd\<rparr>
        (adjustmentsOf r (adj_OriginalTransactionID adj)) = Inr existingTotal \<and>
      ValidateAgainstPurchase adj original existingTotal = None)"
proof (cases "fst (processAdjustment r cmd) = r")
  case True
  then show ?thesis by simp
next
  case False
  then obtain original amount adj existingTotal where
    orig: "GetTransactionByID r (cmd_OriginalTransactionID cmd) = Inr original"
    and am: "buildAmount cmd = Inr amount"
    and adj: "NewAdjustment (cmd_TransactionID cmd) (cmd_TransactionType cmd)
             (cmd_TransactionStatus cmd) amount (merchantOf cmd) (eventOf cmd)
             (cmd_OriginalTransactionID cmd) (cmd_UserID cmd) (cmd_CardID cmd)
             (cmd_Country cmd) (cmd_Currency cmd) (cmd_PointOfSale cmd) = Inr adj"
    and tot: "sumExistingAdjustments (adjustmentsOf r (cmd_OriginalTransactionID cmd))
             (cmd_LocalCurrency cmd) = Inr existingTotal"
    and val: "ValidateAgainstPurchase adj original existingTotal = None"
    and save: "fst (processAdjustment r cmd) = fst (SaveAdjustment r adj)"
    by (auto simp: processAdjustment_def GetAdjustmentsByTransactionID_def
          split: sum.splits if_splits option.splits prod.splits)
  have oid: "adj_OriginalTransactionID adj = cmd_OriginalTransactionID cmd"
    using adj by (auto simp: NewAdjustment_def split: if_splits)
  have loc: "Amount (Local (adj_Amount adj)) = cmd_LocalAmount cmd \<and> 0 \<le> sint (cmd_LocalAmount cmd)"
    using adj am
    by (auto simp: NewAdjustment_def buildAmount_def NewMoney_def word_sless_alt
          split: if_splits sum.splits)
  have tx: "map_of (transactions r) (adj_OriginalTransactionID adj) = Some original"
    using orig oid by (auto simp: GetTransactionByID_def split: option.splits)
  have loop: "sumLoop \<lparr>Amount = 0, Currency = cmd_LocalCurrency cmd\<rparr>
        (adjustmentsOf r (adj_OriginalTransactionID adj)) = Inr existingTotal"
    using tot oid by (simp add: sumExistingAdjustments_def NewMoney_def word_sless_alt)
  have "fst (SaveAdjustment r adj) \<noteq> r"
    using False save by simp
  then have "fst (SaveAdjustment r adj) =
        r\<lparr>idempotencyKeys :=
            AList.update (ev_IdempotencyKey (adj_Event adj)) (adj_ID adj) (idempotencyKeys r),
          adjustments := AList.update (adj_OriginalTransactionID adj)
            (adjustmentsOf r (adj_OriginalTransactionID adj) @ [adj]) (adjustments r)\<rparr>"
    by (auto simp: SaveAdjustment_def split: if_splits)
  with save tx loc loop val show ?thesis
    by (intro disjI2 exI [of _ adj] exI [of _ original] exI [of _ existingTotal]
          exI [of _ "AList.update (ev_IdempotencyKey (adj_Event adj)) (adj_ID adj) (idempotencyKeys r)"])
       simp
qed

lemma adjustmentsOf_update:
  "adjustmentsOf (r\<lparr>idempotencyKeys := keys, adjustments := AList.update oid adjs (adjustments r)\<rparr>) oid' =
     (if oid' = oid then adjs else adjustmentsOf r oid')"
  by (simp add: adjustmentsOf_def update_conv)

lemma adjustmentsOf_transactions_update:
  "adjustmentsOf (r\<lparr>idempotencyKeys := keys, transactions := txs\<rparr>) oid = adjustmentsOf r oid"
  by (simp add: adjustmentsOf_def)

lemma processPurchase_ledgerOK:
  assumes "ledgerOK r"
  shows "ledgerOK (fst (processPurchase r cmd))"
proof (cases "fst (processPurchase r cmd) = r")
  case True
  with assms show ?thesis by simp
next
  case False
  with processPurchase_commit [of r cmd] obtain tx keys where
    eq: "fst (processPurchase r cmd) =
        r\<lparr>idempotencyKeys := keys, transactions := AList.update (tx_ID tx) tx (transactions r)\<rparr>"
    and new: "map_of (transactions r) (tx_ID tx) = None"
    and ge: "100 \<le> sint (Amount (Local (tx_Amount tx)))"
    and le: "sint (Amount (Local (tx_Amount tx))) \<le> 500000"
    by blast
  have none: "adjustmentsOf r (tx_ID tx) = []"
    using assms new by (auto simp: ledgerOK_def)
  show ?thesis
    unfolding eq ledgerOK_def adjustmentsOf_transactions_update
    using assms ge le none
    by (auto simp: ledgerOK_def update_conv)
qed

lemma validated_total:
  assumes "ValidateAgainstPurchase adj original existingTotal = None"
    and "adj_Status adj = StatusApproved"
    and "- (2 ^ 63) \<le> sint (Amount existingTotal) + sint (Amount (Local (adj_Amount adj)))"
    and "sint (Amount existingTotal) + sint (Amount (Local (adj_Amount adj))) < 2 ^ 63"
  shows "sint (Amount existingTotal) + sint (Amount (Local (adj_Amount adj)))
           \<le> sint (Amount (Local (tx_Amount original)))"
  using assms
  by (auto simp: ValidateAgainstPurchase_def Money_Add_def Money_GreaterThan_def word_sless_alt
        sint_add_no_overflow split: if_splits)

lemma processAdjustment_ledgerOK:
  assumes ok: "ledgerOK r" and small: "sint (cmd_LocalAmount cmd) \<le> 2 ^ 62"
  shows "ledgerOK (fst (processAdjustment r cmd))"
proof (cases "fst (processAdjustment r cmd) = r")
  case True
  with ok show ?thesis by simp
next
  case False
  with processAdjustment_commit [of r cmd] obtain adj original existingTotal keys where
    eq: "fst (processAdjustment r cmd) =
        r\<lparr>idempotencyKeys := keys,
          adjustments := AList.update (adj_OriginalTransactionID adj)
            (adjustmentsOf r (adj_OriginalTransactionID adj) @ [adj]) (adjustments r)\<rparr>"
    and tx: "map_of (transactions r) (adj_OriginalTransactionID adj) = Some original"
    and am: "Amount (Local (adj_Amount adj)) = cmd_LocalAmount cmd"
    and pos: "0 \<le> sint (cmd_LocalAmount cmd)"
    and loop: "sumLoop \<lparr>Amount = 0, Currency = cmd_LocalCurrency cmd\<rparr>
        (adjustmentsOf r (adj_OriginalTransactionID adj)) = Inr existingTotal"
    and val: "ValidateAgainstPurchase adj original existingTotal = None"
    by blast
  let ?oid = "adj_OriginalTransactionID adj"
  let ?old = "adjustmentsOf r ?oid"
  have range: "100 \<le> sint (Amount (Local (tx_Amount original)))"
    "sint (Amount (Local (tx_Amount original))) \<le> 500000"
    using ok tx by (auto simp: ledgerOK_def)
  have old_pos: "\<forall>a \<in> set ?old. adj_Status a = StatusApproved \<longrightarrow>
      0 \<le> sint (Amount (Local (adj_Amount a)))"
    using ok by (auto simp: ledgerOK_def)
  have old_le: "approvedTotal ?old \<le> sint (Amount (Local (tx_Amount original)))"
  proof (cases "?old = []")
    case True
    with range show ?thesis by (simp add: approvedTotal_Nil)
  next
    case False
    with ok tx show ?thesis by (auto simp: ledgerOK_def)
  qed
  have old_ge: "0 \<le> approvedTotal ?old"
    using old_pos by (rule approvedTotal_nonneg)
  have total: "sint (Amount existingTotal) = approvedTotal ?old"
    using sumLoop_total [OF loop old_pos] old_le range by simp
  have new_le: "approvedTotal (?old @ [adj]) \<le> sint (Amount (Local (tx_Amount original)))"
  proof (cases "adj_Status adj = StatusApproved")
    case False
    with old_le show ?thesis by (simp add: approvedTotal_append)
  next
    case True
    have "sint (Amount existingTotal) + sint (Amount (Local (adj_Amount adj)))
            \<le> sint (Amount (Local (tx_Amount original)))"
      using val True
    proof (rule validated_total)
      show "- (2 ^ 63) \<le> sint (Amount existingTotal) + sint (Amount (Local (adj_Amount adj)))"
        using total old_ge am pos by simp
      show "sint (Amount existingTotal) + sint (Amount (Local (adj_Amount adj))) < 2 ^ 63"
        using total old_le range am small by simp
    qed
    with True total show ?thesis by (simp add: approvedTotal_append)
  qed
  show ?thesis
    unfolding eq ledgerOK_def adjustmentsOf_update
    using ok tx new_le am pos
    by (auto simp: ledgerOK_def)
qed

lemma ProcessTransaction_ledgerOK:
  assumes "ledgerOK r" and "sint (cmd_LocalAmount cmd) \<le> 2 ^ 62"
  shows "ledgerOK (fst (ProcessTransaction r cmd))"
  using assms
  by (simp add: ProcessTransaction_def processPurchase_ledgerOK processAdjustment_ledgerOK)

lemma NewRepository_ledgerOK: "ledgerOK NewRepository"
  by (simp add: ledgerOK_def NewRepository_def adjustmentsOf_def)

lemma runCommands_ledgerOK:
  assumes "ledgerOK r" and "\<forall>cmd \<in> set cmds. sint (cmd_LocalAmount cmd) \<le> 2 ^ 62"
  shows "ledgerOK (runCommands r cmds)"
  using assms
proof (induction cmds arbitrary: r)
  case Nil
  then show ?case by (simp add: runCommands_Nil)
next
  case (Cons cmd cmds)
  have "ledgerOK (fst (ProcessTransaction r cmd))"
    using Cons.prems by (intro ProcessTransaction_ledgerOK) auto
  then show ?case
    unfolding runCommands_Cons using Cons.prems by (intro Cons.IH) auto
qed

lemma budget_without_overflow:
  assumes "\<forall>cmd \<in> set cmds. sint (cmd_LocalAmount cmd) \<le> 2 ^ 62"
    and "map_of (transactions (runCommands NewRepository cmds)) oid = Some p"
  shows "approvedTotal (adjustmentsOf (runCommands NewRepository cmds) oid)
           \<le> sint (Amount (Local (tx_Amount p)))"
proof -
  let ?r = "runCommands NewRepository cmds"
  have ok: "ledgerOK ?r"
    using NewRepository_ledgerOK assms(1) by (rule runCommands_ledgerOK)
  show ?thesis
  proof (cases "adjustmentsOf ?r oid = []")
    case True
    have "100 \<le> sint (Amount (Local (tx_Amount p)))"
      using ok assms(2) unfolding ledgerOK_def by blast
    with True show ?thesis by (simp add: approvedTotal_Nil)
  next
    case False
    with ok assms(2) show ?thesis by (auto simp: ledgerOK_def)
  qed
qed

end
